theory Spec2Isabelle
  imports Main
begin

section \<open>git-review: the review-session engine\<close>

text \<open>
  A shallow embedding of the commands of git-review (package \<open>commands\<close>), of the SQL
  statements they run (\<open>queries.sql\<close> over \<open>schema.sql\<close>) and of the wrappers of
  \<open>internal/git\<close>. Tables are lists of rows in insertion order, a nullable column is an
  \<open>option\<close>, an \<open>error\<close> return of Go is the \<open>Inl\<close> of a sum, and the \<open>git\<close> process is a
  parameter of the commands that use it.
\<close>

subsection \<open>Rows of the four tables\<close>

text \<open>\<open>db.Comment\<close>: identifiers are kept in their canonical text form, as the \<open>TEXT\<close>
  columns hold them; the line numbers are \<open>int64\<close>.\<close>

record comment =
  ID :: string
  ParentID :: "string option"
  Commit :: string
  File :: "string option"
  StartLine :: "int option"
  EndLine :: "int option"
  Body :: string
  ResolvedAt :: "string option"
  ResolvedBy :: "string option"
  CreatedAt :: string
  CreatedBy :: string

text \<open>\<open>db.Commit\<close>, \<open>db.Session\<close> and \<open>db.Reviewer\<close>.\<close>

record commit =
  Sha :: string
  Message :: string
  Position :: int

record session =
  BaseRef :: string
  Branch :: string
  SessionCreatedAt :: string

record reviewer =
  Name :: string
  CurrentSha :: "string option"

subsection \<open>Errors\<close>

text \<open>The statements of the storage layer, named as in \<open>queries.sql\<close>; \<open>BeginTx\<close> and
  \<open>CommitTx\<close> are the two ends of \<open>Repository.WithTx\<close>.\<close>

datatype stmt =
    SessionExists | GetSession | InsertSession
  | InsertCommit string | ListCommits | GetCommitByPosition | FindCommitBySHAPrefix
  | InsertReviewer | GetReviewer | ListReviewers | UpdateReviewerCurrent
  | InsertComment | FindCommentByPrefix | ListAllComments
  | ReparentChildren | DeleteComment | ResolveComment | UnresolveComment
  | BeginTx | CommitTx

text \<open>\<open>ergo.New msg\<close>, \<open>ergo.WithCode err code\<close> and \<open>ergo.Wrap err msg\<close>, and the
  errors that come from below: \<open>sql.ErrNoRows\<close>, a violated constraint of the schema, a
  statement that the storage layer could not run, a \<open>git\<close> process that failed, and
  a run-time panic.\<close>

datatype error =
    New string
  | WithCode error string
  | Wrap error string
  | ErrNoRows
  | ConstraintFailed stmt
  | StorageFailed stmt
  | GitFailed "string list"
  | Panic string

subsection \<open>\<open>strconv.ParseInt(s, 10, 64)\<close>\<close>

datatype num_error = ErrSyntax | ErrRange

definition maxUint64 :: nat where
  "maxUint64 = 2 ^ 64 - 1"

definition is_digit :: "char \<Rightarrow> bool" where
  "is_digit c \<longleftrightarrow> 48 \<le> (of_char c :: nat) \<and> (of_char c :: nat) \<le> 57"

definition digit_val :: "char \<Rightarrow> nat" where
  "digit_val c = of_char c - 48"

text \<open>The loop of \<open>ParseUint\<close> in base 10 with \<open>bitSize\<close> 64. A byte that is not a decimal
  digit is a syntax error (a letter has a digit value of at least 10, the base; an
  underscore is only read in base 0). \<open>n \<ge> cutoff\<close> and the wrapped sum are the two
  range checks, tested before the rest of the text is read.\<close>

fun parseUintLoop :: "nat \<Rightarrow> string \<Rightarrow> num_error + nat" where
  "parseUintLoop n [] = Inr n"
| "parseUintLoop n (c # cs) =
     (if \<not> is_digit c then Inl ErrSyntax
      else if n \<ge> maxUint64 div 10 + 1 then Inl ErrRange
      else if n * 10 + digit_val c > maxUint64 then Inl ErrRange
      else parseUintLoop (n * 10 + digit_val c) cs)"

definition ParseUint :: "string \<Rightarrow> num_error + nat" where
  "ParseUint s = (if s = [] then Inl ErrSyntax else parseUintLoop 0 s)"

text \<open>\<open>ParseInt\<close> picks off one leading sign, converts the rest unsigned and checks the
  signed range: a range error of \<open>ParseUint\<close> comes with the value \<open>maxUint64\<close>, which
  is beyond both cutoffs.\<close>

definition ParseInt :: "string \<Rightarrow> num_error + int" where
  "ParseInt s =
     (if s = [] then Inl ErrSyntax
      else
        let neg = (hd s = CHR ''-'');
            s1 = (if hd s = CHR ''+'' \<or> hd s = CHR ''-'' then tl s else s)
        in case ParseUint s1 of
             Inl ErrSyntax \<Rightarrow> Inl ErrSyntax
           | Inl ErrRange \<Rightarrow> Inl ErrRange
           | Inr un \<Rightarrow>
               if \<not> neg \<and> un \<ge> 2 ^ 63 then Inl ErrRange
               else if neg \<and> un > 2 ^ 63 then Inl ErrRange
               else Inr (if neg then - int un else int un))"

subsection \<open>\<open>parseLineRange\<close> (commands/add.go)\<close>

text \<open>\<open>strings.IndexByte(raw, ',')\<close> splits at the first comma: \<open>raw[:i]\<close> and
  \<open>raw[i+1:]\<close>.\<close>

definition parseLineRange :: "string \<Rightarrow> error + (int option \<times> int option)" where
  "parseLineRange raw =
     (if raw = [] then Inr (None, None)
      else if CHR '','' \<in> set raw then
        (case ParseInt (takeWhile (\<lambda>c. c \<noteq> CHR '','') raw) of
           Inl _ \<Rightarrow> Inl (New ''invalid line range'')
         | Inr s \<Rightarrow>
             (case ParseInt (tl (dropWhile (\<lambda>c. c \<noteq> CHR '','') raw)) of
                Inl _ \<Rightarrow> Inl (New ''invalid line range'')
              | Inr e \<Rightarrow>
                  if s > e then Inl (New ''invalid line range: start must not exceed end'')
                  else Inr (Some s, Some e)))
      else
        (case ParseInt raw of
           Inl _ \<Rightarrow> Inl (New ''invalid line number'')
         | Inr n \<Rightarrow> Inr (Some n, Some n)))"

subsection \<open>Decimal text\<close>

text \<open>\<open>strconv.FormatInt(i, 10)\<close>, which is also what \<open>%d\<close> prints.\<close>

fun digits_of :: "nat \<Rightarrow> string" where
  "digits_of n =
     (if n < 10 then [char_of (48 + n)]
      else digits_of (n div 10) @ [char_of (48 + n mod 10)])"

declare digits_of.simps [simp del]

definition itoa :: "int \<Rightarrow> string" where
  "itoa i = (if i < 0 then CHR ''-'' # digits_of (nat (- i)) else digits_of (nat i))"

text \<open>The value of a run of decimal digits, the signed 64-bit range, and the texts that
  denote a number of that range: an optional sign, then at least one digit. These three
  state what \<open>ParseInt\<close> accepts; they are not part of the program.\<close>

definition dec_val :: "nat \<Rightarrow> string \<Rightarrow> nat" where
  "dec_val n cs = foldl (\<lambda>a c. a * 10 + digit_val c) n cs"

definition in_int64 :: "int \<Rightarrow> bool" where
  "in_int64 i \<longleftrightarrow> - (2 ^ 63) \<le> i \<and> i < 2 ^ 63"

definition strip_sign :: "string \<Rightarrow> string" where
  "strip_sign s =
     (case s of [] \<Rightarrow> [] | c # cs \<Rightarrow> if c = CHR ''+'' \<or> c = CHR ''-'' then cs else s)"

definition int64_text :: "string \<Rightarrow> int option" where
  "int64_text s =
     (let body = strip_sign s;
          v = (if take 1 s = ''-'' then - int (dec_val 0 body) else int (dec_val 0 body))
      in if body \<noteq> [] \<and> list_all is_digit body \<and> in_int64 v then Some v else None)"

subsection \<open>The store\<close>

text \<open>The four tables of \<open>schema.sql\<close>, each in insertion (rowid) order.\<close>

record db =
  t_session :: "session list"
  t_commits :: "commit list"
  t_reviewers :: "reviewer list"
  t_comments :: "comment list"

text \<open>What the storage layer cannot run: a statement \<open>s\<close> with \<open>flt s\<close> fails and
  changes nothing.\<close>

type_synonym faults = "stmt \<Rightarrow> bool"

text \<open>SQLite's \<open>LIKE\<close>: \<open>%\<close> stands for any run of characters, \<open>_\<close> for any one
  character, and ASCII letters match in either case. The texts compared here (commit
  hashes, identifiers) are ASCII.\<close>

definition ascii_lower :: "char \<Rightarrow> char" where
  "ascii_lower c =
     (if 65 \<le> (of_char c :: nat) \<and> (of_char c :: nat) \<le> 90
      then char_of ((of_char c :: nat) + 32) else c)"

fun like :: "string \<Rightarrow> string \<Rightarrow> bool" where
  "like [] t = (t = [])"
| "like (p # ps) [] = (if p = CHR ''%'' then like ps [] else False)"
| "like (p # ps) (c # cs) =
     (if p = CHR ''%'' then like ps (c # cs) \<or> like (p # ps) cs
      else (p = CHR ''_'' \<or> ascii_lower p = ascii_lower c) \<and> like ps cs)"

text \<open>\<open>WHERE col LIKE ?||'%'\<close>.\<close>

definition like_prefix :: "string \<Rightarrow> string \<Rightarrow> bool" where
  "like_prefix p t = like (p @ ''%'') t"

subsubsection \<open>Session\<close>

definition q_SessionExists :: "faults \<Rightarrow> db \<Rightarrow> error + int" where
  "q_SessionExists flt d =
     (if flt SessionExists then Inl (StorageFailed SessionExists)
      else Inr (int (length (t_session d))))"

definition q_GetSession :: "faults \<Rightarrow> db \<Rightarrow> error + session" where
  "q_GetSession flt d =
     (if flt GetSession then Inl (StorageFailed GetSession)
      else case t_session d of [] \<Rightarrow> Inl ErrNoRows | s # _ \<Rightarrow> Inr s)"

definition q_InsertSession :: "faults \<Rightarrow> session \<Rightarrow> db \<Rightarrow> error + db" where
  "q_InsertSession flt row d =
     (if flt InsertSession then Inl (StorageFailed InsertSession)
      else if BaseRef row \<in> BaseRef ` set (t_session d) then Inl (ConstraintFailed InsertSession)
      else Inr (d\<lparr>t_session := t_session d @ [row]\<rparr>))"

subsubsection \<open>Commits\<close>

text \<open>\<open>sha\<close> is the primary key and \<open>position\<close> is \<open>UNIQUE\<close>.\<close>

definition q_InsertCommit :: "faults \<Rightarrow> commit \<Rightarrow> db \<Rightarrow> error + db" where
  "q_InsertCommit flt row d =
     (if flt (InsertCommit (Sha row)) then Inl (StorageFailed (InsertCommit (Sha row)))
      else if Sha row \<in> Sha ` set (t_commits d) \<or> Position row \<in> Position ` set (t_commits d)
        then Inl (ConstraintFailed (InsertCommit (Sha row)))
      else Inr (d\<lparr>t_commits := t_commits d @ [row]\<rparr>))"

definition q_ListCommits :: "faults \<Rightarrow> db \<Rightarrow> error + commit list" where
  "q_ListCommits flt d =
     (if flt ListCommits then Inl (StorageFailed ListCommits)
      else Inr (sort_key Position (t_commits d)))"

definition q_GetCommitByPosition :: "faults \<Rightarrow> int \<Rightarrow> db \<Rightarrow> error + commit" where
  "q_GetCommitByPosition flt p d =
     (if flt GetCommitByPosition then Inl (StorageFailed GetCommitByPosition)
      else case find (\<lambda>c. Position c = p) (t_commits d) of
             None \<Rightarrow> Inl ErrNoRows | Some c \<Rightarrow> Inr c)"

text \<open>A \<open>:one\<close> query returns the first row of the result and drops the others.\<close>

definition q_FindCommitBySHAPrefix :: "faults \<Rightarrow> string \<Rightarrow> db \<Rightarrow> error + commit" where
  "q_FindCommitBySHAPrefix flt p d =
     (if flt FindCommitBySHAPrefix then Inl (StorageFailed FindCommitBySHAPrefix)
      else case find (\<lambda>c. like_prefix p (Sha c)) (t_commits d) of
             None \<Rightarrow> Inl ErrNoRows | Some c \<Rightarrow> Inr c)"

subsubsection \<open>Reviewers\<close>

text \<open>\<open>name\<close> is the primary key; \<open>current_sha\<close> references \<open>commits(sha)\<close>.
  \<open>InsertReviewerParams{Name: n}\<close> leaves \<open>current_sha\<close> null.\<close>

definition q_InsertReviewer :: "faults \<Rightarrow> reviewer \<Rightarrow> db \<Rightarrow> error + db" where
  "q_InsertReviewer flt row d =
     (if flt InsertReviewer then Inl (StorageFailed InsertReviewer)
      else if Name row \<in> Name ` set (t_reviewers d) then Inl (ConstraintFailed InsertReviewer)
      else if (case CurrentSha row of None \<Rightarrow> False | Some s \<Rightarrow> s \<notin> Sha ` set (t_commits d))
        then Inl (ConstraintFailed InsertReviewer)
      else Inr (d\<lparr>t_reviewers := t_reviewers d @ [row]\<rparr>))"

definition q_ListReviewers :: "faults \<Rightarrow> db \<Rightarrow> error + reviewer list" where
  "q_ListReviewers flt d =
     (if flt ListReviewers then Inl (StorageFailed ListReviewers)
      else Inr (t_reviewers d))"

definition q_GetReviewer :: "faults \<Rightarrow> string \<Rightarrow> db \<Rightarrow> error + reviewer" where
  "q_GetReviewer flt n d =
     (if flt GetReviewer then Inl (StorageFailed GetReviewer)
      else case find (\<lambda>r. Name r = n) (t_reviewers d) of
             None \<Rightarrow> Inl ErrNoRows | Some r \<Rightarrow> Inr r)"

text \<open>\<open>UPDATE reviewers SET current_sha = ? WHERE name = ?\<close>: an update that matches no
  row succeeds and changes nothing.\<close>

definition q_UpdateReviewerCurrent :: "faults \<Rightarrow> string option \<Rightarrow> string \<Rightarrow> db \<Rightarrow> error + db" where
  "q_UpdateReviewerCurrent flt sha n d =
     (if flt UpdateReviewerCurrent then Inl (StorageFailed UpdateReviewerCurrent)
      else if n \<in> Name ` set (t_reviewers d) \<and>
              (case sha of None \<Rightarrow> False | Some s \<Rightarrow> s \<notin> Sha ` set (t_commits d))
        then Inl (ConstraintFailed UpdateReviewerCurrent)
      else Inr (d\<lparr>t_reviewers :=
                  map (\<lambda>r. if Name r = n then r\<lparr>CurrentSha := sha\<rparr> else r) (t_reviewers d)\<rparr>))"

subsubsection \<open>Comments\<close>

text \<open>\<open>id\<close> is the primary key, \<open>parent_id\<close> references \<open>comments(id)\<close> and \<open>commit\<close>
  references \<open>commits(sha)\<close>; foreign keys are enforced.\<close>

definition q_InsertComment :: "faults \<Rightarrow> comment \<Rightarrow> db \<Rightarrow> error + db" where
  "q_InsertComment flt row d =
     (if flt InsertComment then Inl (StorageFailed InsertComment)
      else if ID row \<in> ID ` set (t_comments d) then Inl (ConstraintFailed InsertComment)
      else if (case ParentID row of None \<Rightarrow> False
               | Some p \<Rightarrow> p \<notin> ID ` set (t_comments d) \<and> p \<noteq> ID row)
        then Inl (ConstraintFailed InsertComment)
      else if Commit row \<notin> Sha ` set (t_commits d) then Inl (ConstraintFailed InsertComment)
      else Inr (d\<lparr>t_comments := t_comments d @ [row]\<rparr>))"

definition q_FindCommentByPrefix :: "faults \<Rightarrow> string \<Rightarrow> db \<Rightarrow> error + comment" where
  "q_FindCommentByPrefix flt p d =
     (if flt FindCommentByPrefix then Inl (StorageFailed FindCommentByPrefix)
      else case find (\<lambda>c. like_prefix p (ID c)) (t_comments d) of
             None \<Rightarrow> Inl ErrNoRows | Some c \<Rightarrow> Inr c)"

definition q_ListAllComments :: "faults \<Rightarrow> db \<Rightarrow> error + comment list" where
  "q_ListAllComments flt d =
     (if flt ListAllComments then Inl (StorageFailed ListAllComments)
      else Inr (t_comments d))"





text \<open>\<open>UPDATE comments SET resolved_at = ?, resolved_by = ? WHERE id = ? AND parent_id IS
  NULL\<close> and \<open>UPDATE comments SET resolved_at = NULL, resolved_by = NULL WHERE id = ?\<close>.\<close>

definition q_ResolveComment ::
  "faults \<Rightarrow> string option \<Rightarrow> string option \<Rightarrow> string \<Rightarrow> db \<Rightarrow> error + db" where
  "q_ResolveComment flt at by' i d =
     (if flt ResolveComment then Inl (StorageFailed ResolveComment)
      else Inr (d\<lparr>t_comments :=
                  map (\<lambda>c. if ID c = i \<and> ParentID c = None
                            then c\<lparr>ResolvedAt := at, ResolvedBy := by'\<rparr> else c)
                    (t_comments d)\<rparr>))"

definition q_UnresolveComment :: "faults \<Rightarrow> string \<Rightarrow> db \<Rightarrow> error + db" where
  "q_UnresolveComment flt i d =
     (if flt UnresolveComment then Inl (StorageFailed UnresolveComment)
      else Inr (d\<lparr>t_comments :=
                  map (\<lambda>c. if ID c = i then c\<lparr>ResolvedAt := None, ResolvedBy := None\<rparr> else c)
                    (t_comments d)\<rparr>))"

subsubsection \<open>\<open>Repository.WithTx\<close>\<close>

text \<open>The body runs on the store and on whatever else it touches (\<open>x\<close>, which no
  rollback restores); its error rolls the transaction back, and so does a commit that
  fails. The result is the error, if any, the store afterwards, and the rest.\<close>

definition WithTx ::
  "faults \<Rightarrow> (db \<Rightarrow> 'a \<Rightarrow> (error + db) \<times> 'a) \<Rightarrow> db \<Rightarrow> 'a \<Rightarrow> error option \<times> db \<times> 'a" where
  "WithTx flt fn d x =
     (if flt BeginTx
        then (Some (Wrap (StorageFailed BeginTx) ''failed to begin transaction''), d, x)
      else case fn d x of
             (Inl e, x') \<Rightarrow> (Some e, d, x')
           | (Inr d', x') \<Rightarrow>
               if flt CommitTx then (Some (StorageFailed CommitTx), d, x') else (None, d', x'))"

subsection \<open>The surroundings of a command\<close>

text \<open>\<open>git.Git\<close>: the working directory, the shared \<open>.git\<close> directory, and the name of
  the linked worktree (empty in the main worktree).\<close>

record git =
  WorkDir :: string
  CommonDir :: string
  Reviewer :: string

text \<open>What a command reads from outside: the \<open>git\<close> process (\<open>exec dir args\<close> changes the
  repository and its working copies, of type \<open>'w\<close>, and gives the trimmed standard output,
  or nothing when the process fails), the statements that the storage layer cannot run,
  whether the terminal shows colour, the clock (\<open>time.Now().UTC()\<close> in RFC 3339), the
  next identifier (\<open>uuid.NewV7()\<close>) and the text that \<open>%v\<close> prints for an error.\<close>

record 'w env =
  exec :: "string \<Rightarrow> string list \<Rightarrow> 'w \<Rightarrow> string option \<times> 'w"
  faults_of :: faults
  color :: bool
  now_utc :: string
  new_id :: string
  error_text :: "error \<Rightarrow> string"

datatype out_line = Stdout string | Stderr string

text \<open>What a command changes: the store, the repository with its working copies, and
  the two output streams.\<close>

record 'w sys =
  store :: db
  tree :: 'w
  out :: "out_line list"

subsubsection \<open>\<open>internal/output\<close>\<close>

definition colorGreen :: string where "colorGreen = CHR 0x1B # ''[0;32m''"
definition colorYellow :: string where "colorYellow = CHR 0x1B # ''[0;33m''"
definition colorCyan :: string where "colorCyan = CHR 0x1B # ''[0;36m''"
definition colorBold :: string where "colorBold = CHR 0x1B # ''[1m''"
definition colorReset :: string where "colorReset = CHR 0x1B # ''[0m''"

definition nl :: string where "nl = [CHR 0x0A]"

definition colorize :: "'w env \<Rightarrow> string \<Rightarrow> string \<Rightarrow> string" where
  "colorize E col msg = (if color E then col @ msg @ colorReset else msg)"

definition out_Printf :: "string \<Rightarrow> 'w sys \<Rightarrow> 'w sys" where
  "out_Printf s st = st\<lparr>out := out st @ [Stdout s]\<rparr>"

definition out_Info :: "'w env \<Rightarrow> string \<Rightarrow> 'w sys \<Rightarrow> 'w sys" where
  "out_Info E msg st = st\<lparr>out := out st @ [Stdout (colorize E colorCyan msg @ nl)]\<rparr>"

definition out_Ok :: "'w env \<Rightarrow> string \<Rightarrow> 'w sys \<Rightarrow> 'w sys" where
  "out_Ok E msg st = st\<lparr>out := out st @ [Stdout (colorize E colorGreen msg @ nl)]\<rparr>"

definition out_Warn :: "'w env \<Rightarrow> string \<Rightarrow> 'w sys \<Rightarrow> 'w sys" where
  "out_Warn E msg st =
     st\<lparr>out := out st @ [Stderr (colorize E colorYellow (''Warning: '' @ msg) @ nl)]\<rparr>"

subsubsection \<open>\<open>internal/format.go\<close>\<close>

definition ShortSHA :: "string \<Rightarrow> string" where
  "ShortSHA sha = (if length sha > 7 then take 7 sha else sha)"

definition ShortID :: "string \<Rightarrow> string" where
  "ShortID s = (if length s > 8 then take 8 s else s)"

definition Pluralize :: "int \<Rightarrow> string \<Rightarrow> string \<Rightarrow> string" where
  "Pluralize n singular plural = (if n = 1 then singular else plural)"

definition FormatLineRange :: "int option \<Rightarrow> int option \<Rightarrow> string" where
  "FormatLineRange startLine endLine =
     (case startLine of
        None \<Rightarrow> []
      | Some s \<Rightarrow>
          (case endLine of
             None \<Rightarrow> itoa s
           | Some e \<Rightarrow> if e \<noteq> s then itoa s @ ''-'' @ itoa e else itoa s))"

subsection \<open>Listing: \<open>filterComments\<close> and its helpers\<close>

text \<open>\<open>strings.HasPrefix(s, prefix)\<close>.\<close>

definition HasPrefix :: "string \<Rightarrow> string \<Rightarrow> bool" where
  "HasPrefix s p \<longleftrightarrow> length s \<ge> length p \<and> take (length p) s = p"

text \<open>\<open>buildIDMap\<close>: a later comment with the same identifier replaces an earlier one.\<close>

definition buildIDMap :: "comment list \<Rightarrow> (string \<rightharpoonup> comment)" where
  "buildIDMap allComments = foldl (\<lambda>m c. m(ID c \<mapsto> c)) Map.empty allComments"

text \<open>\<open>findRoot\<close> walks up the parent links while the parent is in the map. Nothing bounds
  the walk: on links that form a cycle the loop does not end, and the model has no value.\<close>

partial_function (option) findRoot :: "(string \<rightharpoonup> comment) \<Rightarrow> comment \<Rightarrow> comment option" where
  "findRoot idMap current =
     (case ParentID current of
        None \<Rightarrow> Some current
      | Some p \<Rightarrow>
          (case idMap p of
             None \<Rightarrow> Some current
           | Some parent \<Rightarrow> findRoot idMap parent))"

text \<open>The first loop of \<open>filterComments\<close>: the test a root has to pass.\<close>

definition rootPasses :: "string \<Rightarrow> bool \<Rightarrow> string \<Rightarrow> string \<Rightarrow> comment \<Rightarrow> bool" where
  "rootPasses matchCommitSHA unresolved creator file cm \<longleftrightarrow>
     \<not> (matchCommitSHA \<noteq> [] \<and> Commit cm \<noteq> matchCommitSHA) \<and>
     \<not> (unresolved \<and> ResolvedAt cm \<noteq> None) \<and>
     \<not> (creator \<noteq> [] \<and> CreatedBy cm \<noteq> creator) \<and>
     \<not> (file \<noteq> [] \<and> (File cm = None \<or> File cm \<noteq> Some file))"

definition rootIDs :: "comment list \<Rightarrow> string \<Rightarrow> bool \<Rightarrow> string \<Rightarrow> string \<Rightarrow> string set" where
  "rootIDs allComments matchCommitSHA unresolved creator file =
     set (map ID (filter (\<lambda>cm. ParentID cm = None \<and>
                               rootPasses matchCommitSHA unresolved creator file cm)
                    allComments))"

text \<open>The second loop: a root is kept when its identifier is in the set, a reply when
  the identifier of the comment that \<open>findRoot\<close> gives is.\<close>

fun keepThreads :: "(string \<rightharpoonup> comment) \<Rightarrow> string set \<Rightarrow> comment list \<Rightarrow> comment list option" where
  "keepThreads idMap ids [] = Some []"
| "keepThreads idMap ids (cm # rest) =
     (case (if ParentID cm = None then Some cm else findRoot idMap cm) of
        None \<Rightarrow> None
      | Some root \<Rightarrow>
          (case keepThreads idMap ids rest of
             None \<Rightarrow> None
           | Some result \<Rightarrow> Some (if ID root \<in> ids then cm # result else result)))"

text \<open>The commit that the prefix stands for: the first of the list that starts with it,
  and the empty text when there is none or no prefix is given.\<close>

definition matchCommit :: "commit list \<Rightarrow> string \<Rightarrow> string" where
  "matchCommit commits commit =
     (if commit \<noteq> [] then
        (case find (\<lambda>cm. HasPrefix (Sha cm) commit) commits of
           None \<Rightarrow> [] | Some cm \<Rightarrow> Sha cm)
      else [])"

definition filterComments ::
  "comment list \<Rightarrow> commit list \<Rightarrow> (string \<rightharpoonup> comment) \<Rightarrow> string \<Rightarrow> bool \<Rightarrow> string \<Rightarrow> string
     \<Rightarrow> comment list option" where
  "filterComments allComments commits idMap commit unresolved creator file =
     (if \<not> (commit \<noteq> [] \<or> unresolved \<or> creator \<noteq> [] \<or> file \<noteq> []) then Some allComments
      else if commit \<noteq> [] \<and> matchCommit commits commit = [] then Some []
      else keepThreads idMap
             (rootIDs allComments (matchCommit commits commit) unresolved creator file)
             allComments)"

subsection \<open>Comment commands\<close>

text \<open>\<open>requireActive\<close>: a session row exists.\<close>

definition requireActive :: "'w env \<Rightarrow> 'w sys \<Rightarrow> error option" where
  "requireActive E st =
     (case q_SessionExists (faults_of E) (store st) of
        Inl e \<Rightarrow> Some (Wrap e ''failed to check session'')
      | Inr count \<Rightarrow>
          if count = 0
          then Some (WithCode (New ''No review in progress. Start with: git review'') ''NoReview'')
          else None)"

text \<open>\<open>ResolveCmd.Run\<close>, with the fields \<open>ID\<close> and \<open>Name\<close> of the command.\<close>

definition ResolveCmd_Run :: "'w env \<Rightarrow> git \<Rightarrow> string \<Rightarrow> string \<Rightarrow> 'w sys \<Rightarrow> error option \<times> 'w sys" where
  "ResolveCmd_Run E g cID cName st =
     (case requireActive E st of
        Some e \<Rightarrow> (Some e, st)
      | None \<Rightarrow>
          let name = (if cName = [] then Reviewer g else cName) in
          case q_FindCommentByPrefix (faults_of E) cID (store st) of
            Inl _ \<Rightarrow> (Some (New ''comment not found''), st)
          | Inr comment \<Rightarrow>
              if ParentID comment \<noteq> None
                then (Some (New ''only root comments can be resolved''), st)
              else if ResolvedAt comment \<noteq> None
                then (Some (New ''thread is already resolved''), st)
              else
                (case q_ResolveComment (faults_of E) (Some (now_utc E)) (Some name)
                        (ID comment) (store st) of
                   Inl e \<Rightarrow> (Some (Wrap e ''failed to resolve comment''), st)
                 | Inr d \<Rightarrow>
                     (None, out_Ok E (''Resolved ['' @ ShortID (ID comment) @ '']'')
                              (st\<lparr>store := d\<rparr>))))"

text \<open>\<open>UnresolveCmd.Run\<close>, with the field \<open>ID\<close>.\<close>

definition UnresolveCmd_Run :: "'w env \<Rightarrow> git \<Rightarrow> string \<Rightarrow> 'w sys \<Rightarrow> error option \<times> 'w sys" where
  "UnresolveCmd_Run E g cID st =
     (case requireActive E st of
        Some e \<Rightarrow> (Some e, st)
      | None \<Rightarrow>
          (case q_FindCommentByPrefix (faults_of E) cID (store st) of
             Inl _ \<Rightarrow> (Some (New ''comment not found''), st)
           | Inr comment \<Rightarrow>
               if ParentID comment \<noteq> None
                 then (Some (New ''only root comments can be unresolved''), st)
               else if ResolvedAt comment = None
                 then (Some (New ''thread is not resolved''), st)
               else
                 (case q_UnresolveComment (faults_of E) (ID comment) (store st) of
                    Inl e \<Rightarrow> (Some (Wrap e ''failed to unresolve comment''), st)
                  | Inr d \<Rightarrow>
                      (None, out_Ok E (''Unresolved ['' @ ShortID (ID comment) @ '']'')
                               (st\<lparr>store := d\<rparr>)))))"

text \<open>\<open>AddCmd\<close>: the flags \<open>-f\<close>, \<open>-l\<close>, \<open>-r\<close>, \<open>-a\<close> and the message.\<close>

record AddCmd =
  add_File :: string
  add_Line :: string
  add_ReplyTo :: string
  add_Author :: string
  add_Message :: string

text \<open>The row that \<open>AddCmd.Run\<close> builds: for a reply from the parent found by the
  prefix, otherwise from the cursor of the reviewer and the flags. The fields that
  \<open>InsertCommentParams\<close> leaves out are null.\<close>

definition addParams :: "'w env \<Rightarrow> git \<Rightarrow> AddCmd \<Rightarrow> db \<Rightarrow> error + comment" where
  "addParams E g c d =
     (let author = (if add_Author c = [] then Reviewer g else add_Author c) in
      if add_ReplyTo c \<noteq> [] then
        (case q_FindCommentByPrefix (faults_of E) (add_ReplyTo c) d of
           Inl _ \<Rightarrow> Inl (New ''comment not found'')
         | Inr parent \<Rightarrow>
             Inr \<lparr>ID = new_id E, ParentID = Some (ID parent), Commit = Commit parent,
                  File = File parent, StartLine = StartLine parent, EndLine = EndLine parent,
                  Body = add_Message c, ResolvedAt = None, ResolvedBy = None,
                  CreatedAt = now_utc E, CreatedBy = author\<rparr>)
      else
        (case q_GetReviewer (faults_of E) (Reviewer g) d of
           Inl e \<Rightarrow> Inl (Wrap e ''failed to get reviewer'')
         | Inr reviewer \<Rightarrow>
             (case CurrentSha reviewer of
                None \<Rightarrow> Inl (New ''No commit selected. Run 'git review next' first.'')
              | Some commitSHA \<Rightarrow>
                  (case parseLineRange (add_Line c) of
                     Inl e \<Rightarrow> Inl e
                   | Inr (startLine, endLine) \<Rightarrow>
                       Inr \<lparr>ID = new_id E, ParentID = None, Commit = commitSHA,
                            File = (if add_File c \<noteq> [] then Some (add_File c) else None),
                            StartLine = startLine, EndLine = endLine,
                            Body = add_Message c, ResolvedAt = None, ResolvedBy = None,
                            CreatedAt = now_utc E, CreatedBy = author\<rparr>))))"

definition AddCmd_Run :: "'w env \<Rightarrow> git \<Rightarrow> AddCmd \<Rightarrow> 'w sys \<Rightarrow> error option \<times> 'w sys" where
  "AddCmd_Run E g c st =
     (case requireActive E st of
        Some e \<Rightarrow> (Some e, st)
      | None \<Rightarrow>
          (case addParams E g c (store st) of
             Inl e \<Rightarrow> (Some e, st)
           | Inr params \<Rightarrow>
               (case q_InsertComment (faults_of E) params (store st) of
                  Inl e \<Rightarrow> (Some (Wrap e ''failed to save comment''), st)
                | Inr d \<Rightarrow>
                    let idStr = ShortID (new_id E);
                        lr = FormatLineRange (StartLine params) (EndLine params);
                        loc = (if lr \<noteq> [] then add_File c @ '':'' @ lr else add_File c);
                        line =
                          (if add_ReplyTo c \<noteq> [] then ''['' @ idStr @ ''] '' @ add_Message c
                           else if add_File c \<noteq> []
                             then ''['' @ idStr @ ''] '' @ loc @ '' '' @ add_Message c
                           else ''['' @ idStr @ ''] '' @ add_Message c)
                    in (None, out_Ok E line (st\<lparr>store := d\<rparr>)))))"



subsection \<open>\<open>internal/git\<close>\<close>

definition git_Run :: "'w env \<Rightarrow> git \<Rightarrow> string list \<Rightarrow> 'w \<Rightarrow> (error + string) \<times> 'w" where
  "git_Run E g args w =
     (case exec E (WorkDir g) args w of
        (None, w') \<Rightarrow> (Inl (Wrap (GitFailed args) ''git command failed''), w')
      | (Some text, w') \<Rightarrow> (Inr text, w'))"

definition RunSilent :: "'w env \<Rightarrow> git \<Rightarrow> string list \<Rightarrow> 'w \<Rightarrow> error option \<times> 'w" where
  "RunSilent E g args w =
     (case exec E (WorkDir g) args w of
        (None, w') \<Rightarrow> (Some (Wrap (GitFailed args) ''git command failed''), w')
      | (Some _, w') \<Rightarrow> (None, w'))"

definition ForWorktree :: "git \<Rightarrow> string \<Rightarrow> string \<Rightarrow> git" where
  "ForWorktree g name path = \<lparr>WorkDir = path, CommonDir = CommonDir g, Reviewer = name\<rparr>"

definition CurrentBranch :: "'w env \<Rightarrow> git \<Rightarrow> 'w \<Rightarrow> (error + string) \<times> 'w" where
  "CurrentBranch E g = git_Run E g [''branch'', ''--show-current'']"

definition RefExists :: "'w env \<Rightarrow> git \<Rightarrow> string \<Rightarrow> 'w \<Rightarrow> bool \<times> 'w" where
  "RefExists E g ref w =
     (case RunSilent E g [''rev-parse'', ''--verify'', ref] w of (r, w') \<Rightarrow> (r = None, w'))"

definition MergeBase :: "'w env \<Rightarrow> git \<Rightarrow> string \<Rightarrow> string \<Rightarrow> 'w \<Rightarrow> (error + string) \<times> 'w" where
  "MergeBase E g ref1 ref2 = git_Run E g [''merge-base'', ref1, ref2]"

text \<open>\<open>strings.Split(s, "\n")\<close>.\<close>

fun split_lines :: "string \<Rightarrow> string list" where
  "split_lines [] = [[]]"
| "split_lines (c # cs) =
     (if c = CHR 0x0A then [] # split_lines cs
      else (case split_lines cs of [] \<Rightarrow> [[c]] | l # ls \<Rightarrow> (c # l) # ls))"

definition RevList :: "'w env \<Rightarrow> git \<Rightarrow> string \<Rightarrow> 'w \<Rightarrow> (error + string list) \<times> 'w" where
  "RevList E g rangeSpec w =
     (case git_Run E g [''rev-list'', ''--reverse'', rangeSpec] w of
        (Inl e, w') \<Rightarrow> (Inl e, w')
      | (Inr text, w') \<Rightarrow> (Inr (if text = [] then [] else split_lines text), w'))"

definition Oneline :: "'w env \<Rightarrow> git \<Rightarrow> string \<Rightarrow> 'w \<Rightarrow> (error + string) \<times> 'w" where
  "Oneline E g ref = git_Run E g [''log'', ''--oneline'', ''-1'', ref]"

definition Subject :: "'w env \<Rightarrow> git \<Rightarrow> string \<Rightarrow> 'w \<Rightarrow> (error + string) \<times> 'w" where
  "Subject E g ref = git_Run E g [''log'', ''-1'', ''--format=%s'', ref]"

definition Checkout :: "'w env \<Rightarrow> git \<Rightarrow> string \<Rightarrow> 'w \<Rightarrow> error option \<times> 'w" where
  "Checkout E g ref = RunSilent E g [''checkout'', ref, ''--quiet'']"


definition WorktreeAdd :: "'w env \<Rightarrow> git \<Rightarrow> string \<Rightarrow> 'w \<Rightarrow> error option \<times> 'w" where
  "WorktreeAdd E g path = RunSilent E g [''worktree'', ''add'', path, ''--detach'']"

definition ReadTreeReset :: "'w env \<Rightarrow> git \<Rightarrow> string \<Rightarrow> 'w \<Rightarrow> error option \<times> 'w" where
  "ReadTreeReset E g ref = RunSilent E g [''read-tree'', ''-u'', ''--reset'', ref]"

definition DiffStagedStat :: "'w env \<Rightarrow> git \<Rightarrow> 'w \<Rightarrow> (error + string) \<times> 'w" where
  "DiffStagedStat E g = git_Run E g [''diff'', ''--staged'', ''--stat'']"

text \<open>\<open>text, _ := g.Oneline(ref)\<close>: the text of a failed call is empty.\<close>

definition text_or_empty :: "(error + string) \<times> 'w \<Rightarrow> string \<times> 'w" where
  "text_or_empty r = (case r of (Inl _, w) \<Rightarrow> ([], w) | (Inr t, w) \<Rightarrow> (t, w))"

subsection \<open>Navigation\<close>

text \<open>\<open>int64\<close> arithmetic wraps.\<close>

definition wrap64 :: "int \<Rightarrow> int" where
  "wrap64 i = (i + 2 ^ 63) mod 2 ^ 64 - 2 ^ 63"

definition findCommitPosition :: "commit list \<Rightarrow> string \<Rightarrow> int" where
  "findCommitPosition commits sha =
     (case find (\<lambda>cm. Sha cm = sha) commits of None \<Rightarrow> - 1 | Some cm \<Rightarrow> Position cm)"

text \<open>The reference to check out before the target's tree is read: the base of the session
  for position 0, otherwise the commit one position before.\<close>

definition parentRefOf :: "faults \<Rightarrow> commit \<Rightarrow> db \<Rightarrow> error + string" where
  "parentRefOf flt target d =
     (if Position target = 0 then
        (case q_GetSession flt d of
           Inl e \<Rightarrow> Inl (Wrap e ''failed to get session'')
         | Inr s \<Rightarrow> Inr (BaseRef s))
      else
        (case q_GetCommitByPosition flt (wrap64 (Position target - 1)) d of
           Inl e \<Rightarrow> Inl (Wrap e ''failed to get parent commit'')
         | Inr parent \<Rightarrow> Inr (Sha parent)))"

definition jumpTo :: "'w env \<Rightarrow> git \<Rightarrow> string \<Rightarrow> commit \<Rightarrow> 'w sys \<Rightarrow> error option \<times> 'w sys" where
  "jumpTo E g reviewerName target st =
     (case parentRefOf (faults_of E) target (store st) of
        Inl e \<Rightarrow> (Some e, st)
      | Inr parentRef \<Rightarrow>
          (case Checkout E g parentRef (tree st) of
             (Some e, w1) \<Rightarrow> (Some (Wrap e ''failed to checkout parent''), st\<lparr>tree := w1\<rparr>)
           | (None, w1) \<Rightarrow>
               (case ReadTreeReset E g (Sha target) w1 of
                  (Some e, w2) \<Rightarrow>
                    (Some (Wrap e ''failed to read-tree target''), st\<lparr>tree := w2\<rparr>)
                | (None, w2) \<Rightarrow>
                    (case q_UpdateReviewerCurrent (faults_of E) (Some (Sha target)) reviewerName
                            (store st) of
                       Inl e \<Rightarrow>
                         (Some (Wrap e ''failed to update reviewer position''), st\<lparr>tree := w2\<rparr>)
                     | Inr d \<Rightarrow> (None, st\<lparr>tree := w2, store := d\<rparr>)))))"

text \<open>The line \<open>"  %s [%d/%d] %s\n"\<close> and the staged statistics that \<open>next\<close> and \<open>jump\<close>
  print after a move.\<close>

definition arrow :: string where
  "arrow = [CHR 0xE2, CHR 0x86, CHR 0x92]"

definition showMove :: "'w env \<Rightarrow> git \<Rightarrow> commit \<Rightarrow> int \<Rightarrow> int \<Rightarrow> 'w sys \<Rightarrow> 'w sys" where
  "showMove E g target shown tot st =
     (case text_or_empty (Oneline E g (Sha target) (tree st)) of
        (oneline, w1) \<Rightarrow>
          (case text_or_empty (DiffStagedStat E g w1) of
             (stat, w2) \<Rightarrow>
               let st1 = out_Printf nl (st\<lparr>tree := w2\<rparr>);
                   st2 = out_Printf (''  '' @ colorize E colorBold arrow @ '' ['' @ itoa shown @ ''/''
                                      @ itoa tot @ ''] '' @ oneline @ nl) st1
               in if stat \<noteq> [] then out_Printf (nl @ stat @ nl) st2 else st2))"

text \<open>The index that \<open>NextCmd.Run\<close> moves to: 0 without a cursor, otherwise one more than
  the position of the cursor's commit.\<close>

definition nextIdx :: "reviewer \<Rightarrow> commit list \<Rightarrow> error + int" where
  "nextIdx r commits =
     (case CurrentSha r of
        None \<Rightarrow> Inr 0
      | Some sha \<Rightarrow>
          let pos = findCommitPosition commits sha in
          if pos < 0 then Inl (New ''current commit not found in commit list'')
          else Inr (wrap64 (pos + 1)))"

definition NextCmd_Run :: "'w env \<Rightarrow> git \<Rightarrow> 'w sys \<Rightarrow> error option \<times> 'w sys" where
  "NextCmd_Run E g st =
     (case requireActive E st of
        Some e \<Rightarrow> (Some e, st)
      | None \<Rightarrow>
          (case q_GetReviewer (faults_of E) (Reviewer g) (store st) of
             Inl e \<Rightarrow> (Some (Wrap e ''failed to get reviewer''), st)
           | Inr r \<Rightarrow>
               (case q_ListCommits (faults_of E) (store st) of
                  Inl e \<Rightarrow> (Some (Wrap e ''failed to list commits''), st)
                | Inr commits \<Rightarrow>
                    let tot = int (length commits) in
                    (case nextIdx r commits of
                       Inl e \<Rightarrow> (Some e, st)
                     | Inr i \<Rightarrow>
                         if i \<ge> tot then
                           (None,
                            out_Printf ''  git review list      View all comments\<newline>''
                             (out_Printf ''  git review finish    Complete the review\<newline>''
                               (out_Printf nl
                                 (out_Ok E ''All commits reviewed.''
                                   (out_Printf nl st)))))
                         else if i < 0 then (Some (Panic ''index out of range''), st)
                         else
                           let target = commits ! nat i in
                           (case jumpTo E g (Reviewer g) target st of
                              (Some e, st1) \<Rightarrow> (Some e, st1)
                            | (None, st1) \<Rightarrow>
                                (None, showMove E g target (wrap64 (i + 1)) tot st1))))))"

definition JumpCmd_Run :: "'w env \<Rightarrow> git \<Rightarrow> string \<Rightarrow> 'w sys \<Rightarrow> error option \<times> 'w sys" where
  "JumpCmd_Run E g hash st =
     (case requireActive E st of
        Some e \<Rightarrow> (Some e, st)
      | None \<Rightarrow>
          (case q_FindCommitBySHAPrefix (faults_of E) hash (store st) of
             Inl _ \<Rightarrow> (Some (New ''commit not found''), st)
           | Inr target \<Rightarrow>
               (case jumpTo E g (Reviewer g) target st of
                  (Some e, st1) \<Rightarrow> (Some e, st1)
                | (None, st1) \<Rightarrow>
                    (case q_ListCommits (faults_of E) (store st1) of
                       Inl e \<Rightarrow> (Some (Wrap e ''failed to list commits''), st1)
                     | Inr commits \<Rightarrow>
                         (None, showMove E g target (wrap64 (Position target + 1))
                                  (int (length commits)) st1)))))"

subsection \<open>Status\<close>

text \<open>\<open>showStatus\<close> prints the progress of the review; it reads the store and asks \<open>git\<close>
  for the one-line form of each commit.\<close>

definition reviewerLine :: "commit list \<Rightarrow> reviewer \<Rightarrow> string" where
  "reviewerLine commits r =
     (let name = (if Name r = [] then ''(default)'' else Name r);
          pos = (case CurrentSha r of
                   None \<Rightarrow> ''not started''
                 | Some sha \<Rightarrow>
                     let p = findCommitPosition commits sha in
                     if p \<ge> 0 then itoa (wrap64 (p + 1)) @ ''/'' @ itoa (int (length commits))
                     else ''not started'')
      in ''  Reviewer '' @ name @ '': '' @ pos @ nl)"

definition currentPosOf :: "git \<Rightarrow> commit list \<Rightarrow> reviewer list \<Rightarrow> int" where
  "currentPosOf g commits reviewers =
     (case find (\<lambda>r. Name r = Reviewer g \<and> CurrentSha r \<noteq> None) reviewers of
        None \<Rightarrow> - 1
      | Some r \<Rightarrow> findCommitPosition commits (the (CurrentSha r)))"

definition commitLine ::
  "'w env \<Rightarrow> git \<Rightarrow> comment list \<Rightarrow> int \<Rightarrow> 'w sys \<Rightarrow> commit \<Rightarrow> 'w sys" where
  "commitLine E g comments currentPos st cm =
     (case text_or_empty (Oneline E g (Sha cm) (tree st)) of
        (oneline, w1) \<Rightarrow>
          let n = int (length (filter (\<lambda>c. Commit c = Sha cm) comments));
              badge = (if n > 0
                       then '' ('' @ itoa n @ '' '' @ Pluralize n ''comment'' ''comments'' @ '')''
                       else []);
              line = itoa (wrap64 (Position cm + 1)) @ ''. '' @ oneline @ badge;
              st1 = st\<lparr>tree := w1\<rparr>
          in if Position cm < currentPos then
               out_Printf (''  '' @ colorize E colorGreen [CHR 0xE2, CHR 0x9C, CHR 0x93] @ '' ''
                           @ colorize E colorGreen line @ nl) st1
             else if Position cm = currentPos then
               out_Printf (''  '' @ colorize E colorYellow arrow @ '' ''
                           @ colorize E colorYellow line @ nl) st1
             else out_Printf (''  '' @ [CHR 0xE2, CHR 0x97, CHR 0x8B] @ '' '' @ line @ nl) st1)"

definition showStatus :: "'w env \<Rightarrow> git \<Rightarrow> 'w sys \<Rightarrow> error option \<times> 'w sys" where
  "showStatus E g st =
     (case q_GetSession (faults_of E) (store st) of
        Inl e \<Rightarrow> (Some (Wrap e ''failed to get session''), st)
      | Inr s \<Rightarrow>
          (case q_ListCommits (faults_of E) (store st) of
             Inl e \<Rightarrow> (Some (Wrap e ''failed to list commits''), st)
           | Inr commits \<Rightarrow>
               let (comments, st1) =
                     (case q_ListAllComments (faults_of E) (store st) of
                        Inl e \<Rightarrow> ([], out_Warn E (''failed to load comments: '' @ error_text E e) st)
                      | Inr cs \<Rightarrow> (cs, st))
               in (case q_ListReviewers (faults_of E) (store st1) of
                     Inl e \<Rightarrow> (Some (Wrap e ''failed to list reviewers''), st1)
                   | Inr reviewers \<Rightarrow>
                       let st2 = out_Printf nl
                                   (out_Printf (colorize E colorBold ''Review Progress'' @ ''  ''
                                                @ Branch s @ nl)
                                     (out_Printf nl st1));
                           st3 = (if length reviewers > 1
                                  then out_Printf nl
                                         (foldl (\<lambda>t r. out_Printf (reviewerLine commits r) t)
                                            st2 reviewers)
                                  else st2);
                           st4 = foldl (commitLine E g comments
                                          (currentPosOf g commits reviewers)) st3 commits
                       in (None, out_Printf nl st4))))"

subsection \<open>Starting and joining a session\<close>

text \<open>\<open>StartCmd\<close>: the optional base reference and the role name (\<open>-a\<close>).\<close>

record StartCmd =
  start_Base :: string
  start_Name :: string

text \<open>\<open>filepath.Join(g.CommonDir, "review", "worktrees", name)\<close>, for a directory and a
  name that \<open>Join\<close> has nothing to clean in.\<close>

definition worktreePath :: "git \<Rightarrow> string \<Rightarrow> string" where
  "worktreePath g name = CommonDir g @ ''/review/worktrees/'' @ name"

definition bars :: string where
  "bars = [CHR 0xE2, CHR 0x95, CHR 0x90, CHR 0xE2, CHR 0x95, CHR 0x90]"

definition joinedBanner :: "'w env \<Rightarrow> git \<Rightarrow> StartCmd \<Rightarrow> int \<Rightarrow> string \<Rightarrow> 'w sys \<Rightarrow> 'w sys" where
  "joinedBanner E g c n oneline st =
     (let st1 = out_Printf nl st;
          st2 = out_Ok E (bars @ '' Joined Review as '' @ start_Name c @ '': '' @ itoa n
                          @ '' commit(s) '' @ bars) st1;
          st3 = out_Printf nl st2;
          st4 = out_Printf (''  '' @ colorize E colorBold arrow @ '' [1/'' @ itoa n @ ''] ''
                            @ oneline @ nl) st3;
          st5 = out_Printf nl st4
      in out_Printf (''  Worktree: '' @ worktreePath g (start_Name c) @ nl) st5)"

definition joinExistingSession :: "'w env \<Rightarrow> git \<Rightarrow> StartCmd \<Rightarrow> 'w sys \<Rightarrow> error option \<times> 'w sys" where
  "joinExistingSession E g c st =
     (case q_InsertReviewer (faults_of E) \<lparr>Name = start_Name c, CurrentSha = None\<rparr> (store st) of
        Inl e \<Rightarrow> (Some (Wrap e ''failed to add reviewer''), st)
      | Inr d \<Rightarrow>
          (case WorktreeAdd E g (worktreePath g (start_Name c)) (tree st) of
             (Some e, w1) \<Rightarrow>
               (Some (Wrap e ''failed to create worktree''), st\<lparr>store := d, tree := w1\<rparr>)
           | (None, w1) \<Rightarrow>
               let jumpGit = ForWorktree g (start_Name c) (worktreePath g (start_Name c));
                   st1 = st\<lparr>store := d, tree := w1\<rparr>
               in (case q_GetCommitByPosition (faults_of E) 0 d of
                     Inl e \<Rightarrow> (Some (Wrap e ''failed to get first commit''), st1)
                   | Inr firstCommit \<Rightarrow>
                       (case jumpTo E jumpGit (start_Name c) firstCommit st1 of
                          (Some e, st2) \<Rightarrow> (Some (Wrap e ''failed to jump to first commit''), st2)
                        | (None, st2) \<Rightarrow>
                            (case q_ListCommits (faults_of E) (store st2) of
                               Inl e \<Rightarrow> (Some (Wrap e ''failed to list commits''), st2)
                             | Inr commits \<Rightarrow>
                                 (case text_or_empty (Oneline E g (Sha firstCommit) (tree st2)) of
                                    (oneline, w3) \<Rightarrow>
                                      (None, joinedBanner E g c (int (length commits)) oneline
                                               (st2\<lparr>tree := w3\<rparr>))))))))"

text \<open>The loop over \<open>main\<close>, \<open>master\<close>, \<open>develop\<close>: the merge base of the first of them that
  exists and has one; a failed \<open>merge-base\<close> leaves the base empty and goes on.\<close>

fun detectBase :: "'w env \<Rightarrow> git \<Rightarrow> string list \<Rightarrow> 'w sys \<Rightarrow> string \<times> 'w sys" where
  "detectBase E g [] st = ([], st)"
| "detectBase E g (ref # refs) st =
     (case RefExists E g ref (tree st) of
        (False, w1) \<Rightarrow> detectBase E g refs (st\<lparr>tree := w1\<rparr>)
      | (True, w1) \<Rightarrow>
          (case MergeBase E g ref ''HEAD'' w1 of
             (Inl _, w2) \<Rightarrow> detectBase E g refs (st\<lparr>tree := w2\<rparr>)
           | (Inr base, w2) \<Rightarrow>
               (case text_or_empty (Oneline E g base w2) of
                  (oneline, w3) \<Rightarrow>
                    (base, out_Info E (''Base: '' @ ref @ '' ('' @ oneline @ '')'')
                             (st\<lparr>tree := w3\<rparr>)))))"

definition resolveBase :: "'w env \<Rightarrow> git \<Rightarrow> StartCmd \<Rightarrow> 'w sys \<Rightarrow> (error + string) \<times> 'w sys" where
  "resolveBase E g c st =
     (if start_Base c \<noteq> [] then
        (case git_Run E g [''rev-parse'', start_Base c] (tree st) of
           (Inl _, w1) \<Rightarrow> (Inl (WithCode (New ''invalid ref'') ''InvalidRef''), st\<lparr>tree := w1\<rparr>)
         | (Inr base, w1) \<Rightarrow> (Inr base, st\<lparr>tree := w1\<rparr>))
      else
        (case detectBase E g [''main'', ''master'', ''develop''] st of
           (base, st1) \<Rightarrow>
             if base = []
             then (Inl (WithCode
                          (New ''Cannot detect base branch. Specify: git review <base-ref>'')
                          ''InvalidRef''), st1)
             else (Inr base, st1)))"

text \<open>The loop \<open>for i, sha := range commits\<close> inside the transaction: the subject of each
  commit is asked from \<open>git\<close>, and the row gets the index as its position.\<close>

fun insertCommits ::
  "'w env \<Rightarrow> git \<Rightarrow> nat \<Rightarrow> string list \<Rightarrow> db \<Rightarrow> 'w \<Rightarrow> (error + db) \<times> 'w" where
  "insertCommits E g i [] d w = (Inr d, w)"
| "insertCommits E g i (sha # shas) d w =
     (case text_or_empty (Subject E g sha w) of
        (msg, w1) \<Rightarrow>
          (case q_InsertCommit (faults_of E) \<lparr>Sha = sha, Message = msg, Position = int i\<rparr> d of
             Inl e \<Rightarrow> (Inl (Wrap e ''failed to insert commit''), w1)
           | Inr d1 \<Rightarrow> insertCommits E g (Suc i) shas d1 w1))"

text \<open>The function handed to \<open>WithTx\<close> by \<open>StartCmd.Run\<close>.\<close>

definition startTx ::
  "'w env \<Rightarrow> git \<Rightarrow> string \<Rightarrow> string \<Rightarrow> string \<Rightarrow> string list \<Rightarrow> db \<Rightarrow> 'w \<Rightarrow> (error + db) \<times> 'w" where
  "startTx E g base currentBranch reviewerName commits d w =
     (case q_InsertSession (faults_of E)
             \<lparr>BaseRef = base, Branch = currentBranch, SessionCreatedAt = now_utc E\<rparr> d of
        Inl e \<Rightarrow> (Inl (Wrap e ''failed to insert session''), w)
      | Inr d1 \<Rightarrow>
          (case insertCommits E g 0 commits d1 w of
             (Inl e, w1) \<Rightarrow> (Inl e, w1)
           | (Inr d2, w1) \<Rightarrow>
               (case q_InsertReviewer (faults_of E) \<lparr>Name = reviewerName, CurrentSha = None\<rparr> d2 of
                  Inl e \<Rightarrow> (Inl (Wrap e ''failed to insert reviewer''), w1)
                | Inr d3 \<Rightarrow> (Inr d3, w1))))"

definition startedBanner :: "'w env \<Rightarrow> int \<Rightarrow> string \<Rightarrow> 'w sys \<Rightarrow> 'w sys" where
  "startedBanner E n oneline st =
     (let st1 = out_Printf nl st;
          st2 = out_Ok E (bars @ '' Review Started: '' @ itoa n @ '' commit(s) '' @ bars) st1;
          st3 = out_Printf nl st2;
          st4 = out_Printf (''  '' @ colorize E colorBold arrow @ '' [1/'' @ itoa n @ ''] ''
                            @ oneline @ nl) st3;
          st5 = out_Printf nl st4;
          st6 = out_Printf (''  Staged changes are ready for review.'' @ nl) st5;
          st7 = out_Printf nl st6;
          st8 = out_Printf (''    git review add 'message'                Add comment'' @ nl) st7;
          st9 = out_Printf (''    git review add -f file -l N 'message'   Add comment on file:line''
                            @ nl) st8
      in out_Printf (''    git review next                         Next commit'' @ nl) st9)"

text \<open>The end of \<open>StartCmd.Run\<close>, after the transaction: the worktree of a named
  reviewer, and the move to the first commit.\<close>

definition startJump ::
  "'w env \<Rightarrow> git \<Rightarrow> StartCmd \<Rightarrow> string \<Rightarrow> string list \<Rightarrow> 'w sys \<Rightarrow> error option \<times> 'w sys" where
  "startJump E g c reviewerName commits st =
     (case (if start_Name c \<noteq> [] then
              (case WorktreeAdd E g (worktreePath g (start_Name c)) (tree st) of
                 (Some e, w) \<Rightarrow> (Inl (Wrap e ''failed to create worktree''), w)
               | (None, w) \<Rightarrow>
                   (Inr (ForWorktree g (start_Name c) (worktreePath g (start_Name c))), w))
            else (Inr g, tree st)) of
        (Inl e, w) \<Rightarrow> (Some e, st\<lparr>tree := w\<rparr>)
      | (Inr jumpGit, w) \<Rightarrow>
          (case q_GetCommitByPosition (faults_of E) 0 (store st) of
             Inl e \<Rightarrow> (Some (Wrap e ''failed to get first commit''), st\<lparr>tree := w\<rparr>)
           | Inr firstCommit \<Rightarrow>
               (case jumpTo E jumpGit reviewerName firstCommit (st\<lparr>tree := w\<rparr>) of
                  (Some e, st1) \<Rightarrow> (Some (Wrap e ''failed to jump to first commit''), st1)
                | (None, st1) \<Rightarrow>
                    (case text_or_empty (Oneline E g (hd commits) (tree st1)) of
                       (oneline, w1) \<Rightarrow>
                         (None, startedBanner E (int (length commits)) oneline
                                  (st1\<lparr>tree := w1\<rparr>))))))"

text \<open>\<open>StartCmd.Run\<close> once no session exists: the branch, the base, the commits of
  \<open>base..HEAD\<close> oldest first, the transaction, and the end above.\<close>

definition noCommits :: error where
  "noCommits = WithCode (New ''No commits to review between base and HEAD.'') ''NoCommits''"

definition detachedHead :: error where
  "detachedHead = WithCode (New ''Detached HEAD. Checkout a branch first.'') ''DetachedHead''"

definition startSession :: "'w env \<Rightarrow> git \<Rightarrow> StartCmd \<Rightarrow> 'w sys \<Rightarrow> error option \<times> 'w sys" where
  "startSession E g c st =
     (case CurrentBranch E g (tree st) of
        (Inl _, w0) \<Rightarrow> (Some detachedHead, st\<lparr>tree := w0\<rparr>)
      | (Inr currentBranch, w0) \<Rightarrow>
          if currentBranch = [] then (Some detachedHead, st\<lparr>tree := w0\<rparr>)
          else
            (case resolveBase E g c (st\<lparr>tree := w0\<rparr>) of
               (Inl e, st1) \<Rightarrow> (Some e, st1)
             | (Inr base, st1) \<Rightarrow>
                 (case RevList E g (base @ ''..HEAD'') (tree st1) of
                    (Inl _, w2) \<Rightarrow> (Some noCommits, st1\<lparr>tree := w2\<rparr>)
                  | (Inr commits, w2) \<Rightarrow>
                      if commits = [] then (Some noCommits, st1\<lparr>tree := w2\<rparr>)
                      else
                        let reviewerName =
                              (if start_Name c = [] then Reviewer g else start_Name c)
                        in (case WithTx (faults_of E)
                                   (startTx E g base currentBranch reviewerName commits)
                                   (store st1) w2 of
                              (Some e, d, w3) \<Rightarrow>
                                (Some (Wrap e ''failed to initialize review''),
                                 st1\<lparr>store := d, tree := w3\<rparr>)
                            | (None, d, w3) \<Rightarrow>
                                startJump E g c reviewerName commits
                                  (st1\<lparr>store := d, tree := w3\<rparr>)))))"

definition StartCmd_Run :: "'w env \<Rightarrow> git \<Rightarrow> StartCmd \<Rightarrow> 'w sys \<Rightarrow> error option \<times> 'w sys" where
  "StartCmd_Run E g c st =
     (case q_SessionExists (faults_of E) (store st) of
        Inl e \<Rightarrow> (Some (Wrap e ''failed to check session''), st)
      | Inr count \<Rightarrow>
          if count > 0 then
            (if start_Name c \<noteq> [] then joinExistingSession E g c st
             else if start_Base c \<noteq> [] then
               (Some (WithCode (New ''Review already in progress. Finish or abort first.'')
                        ''ReviewActive''), st)
             else showStatus E g st)
          else startSession E g c st)"

subsection \<open>Threads\<close>






subsection \<open>A small session, for the examples\<close>

text \<open>A \<open>git\<close> that always succeeds, prints nothing and records the arguments of every
  call; a store that runs every statement.\<close>

definition logExec :: "string \<Rightarrow> string list \<Rightarrow> string list list \<Rightarrow> string option \<times> string list list" where
  "logExec dir args w = (Some [], w @ [args])"

definition E0 :: "string list list env" where
  "E0 = \<lparr>exec = logExec, faults_of = (\<lambda>_. False), color = False,
          now_utc = ''2026-01-05T10:00:00Z'', new_id = ''c9'', error_text = (\<lambda>_. [])\<rparr>"

definition g0 :: git where
  "g0 = \<lparr>WorkDir = ''/repo'', CommonDir = ''/repo/.git'', Reviewer = []\<rparr>"

definition commit1 :: commit where
  "commit1 = \<lparr>Sha = ''ab12'', Message = ''first'', Position = 0\<rparr>"

definition commit2 :: commit where
  "commit2 = \<lparr>Sha = ''ab34'', Message = ''second'', Position = 1\<rparr>"

definition db0 :: db where
  "db0 = \<lparr>t_session = [\<lparr>BaseRef = ''base'', Branch = ''feature'', SessionCreatedAt = ''2026-01-05T09:00:00Z''\<rparr>],
           t_commits = [commit1, commit2],
           t_reviewers = [\<lparr>Name = [], CurrentSha = Some ''ab12''\<rparr>],
           t_comments = []\<rparr>"

definition st0 :: "string list list sys" where
  "st0 = \<lparr>store = db0, tree = [], out = []\<rparr>"

text \<open>\<open>git review add -f a.go -l -3,0 m\<close>.\<close>

definition addNeg :: AddCmd where
  "addNeg = \<lparr>add_File = ''a.go'', add_Line = ''-3,0'', add_ReplyTo = [], add_Author = [],
              add_Message = ''m''\<rparr>"

text \<open>Two threads: \<open>root1\<close> is resolved and has the replies \<open>reply1\<close> and \<open>reply3\<close>, and
  \<open>reply2\<close> answers \<open>reply1\<close>; \<open>root2\<close> is open and has no reply. The reviewer of the main
  worktree is at the second commit.\<close>

definition root1 :: comment where
  "root1 = \<lparr>ID = ''aa01'', ParentID = None, Commit = ''ab12'', File = Some ''a.go'',
             StartLine = Some 3, EndLine = Some 5, Body = ''why'',
             ResolvedAt = Some ''2026-01-05T09:30:00Z'', ResolvedBy = Some ''bob'',
             CreatedAt = ''2026-01-05T09:10:00Z'', CreatedBy = ''alice''\<rparr>"

definition root2 :: comment where
  "root2 = \<lparr>ID = ''bb02'', ParentID = None, Commit = ''ab34'', File = None,
             StartLine = None, EndLine = None, Body = ''nit'',
             ResolvedAt = None, ResolvedBy = None,
             CreatedAt = ''2026-01-05T09:11:00Z'', CreatedBy = ''bob''\<rparr>"

definition reply1 :: comment where
  "reply1 = \<lparr>ID = ''cc03'', ParentID = Some ''aa01'', Commit = ''ab34'', File = Some ''a.go'',
              StartLine = Some 3, EndLine = Some 5, Body = ''because'',
              ResolvedAt = None, ResolvedBy = None,
              CreatedAt = ''2026-01-05T09:12:00Z'', CreatedBy = ''bob''\<rparr>"

definition reply2 :: comment where
  "reply2 = \<lparr>ID = ''dd04'', ParentID = Some ''cc03'', Commit = ''ab12'', File = Some ''a.go'',
              StartLine = Some 3, EndLine = Some 5, Body = ''ok'',
              ResolvedAt = None, ResolvedBy = None,
              CreatedAt = ''2026-01-05T09:13:00Z'', CreatedBy = ''carol''\<rparr>"

definition reply3 :: comment where
  "reply3 = \<lparr>ID = ''ee05'', ParentID = Some ''aa01'', Commit = ''ab12'', File = Some ''a.go'',
              StartLine = Some 3, EndLine = Some 5, Body = ''also'',
              ResolvedAt = None, ResolvedBy = None,
              CreatedAt = ''2026-01-05T09:14:00Z'', CreatedBy = ''carol''\<rparr>"

definition db1 :: db where
  "db1 = db0\<lparr>t_reviewers := [\<lparr>Name = [], CurrentSha = Some ''ab34''\<rparr>],
             t_comments := [root1, root2, reply1, reply2, reply3]\<rparr>"

definition st1 :: "string list list sys" where
  "st1 = \<lparr>store = db1, tree = [], out = []\<rparr>"

text \<open>\<open>git review add -r aa again\<close>.\<close>

definition addReply :: AddCmd where
  "addReply = \<lparr>add_File = [], add_Line = [], add_ReplyTo = ''aa'', add_Author = ''dave'',
                add_Message = ''again''\<rparr>"

text \<open>A \<open>git\<close> that fails on the commands whose first argument is \<open>bad\<close>, and a session
  whose reviewer has not moved yet.\<close>

definition failExec ::
  "string \<Rightarrow> string \<Rightarrow> string list \<Rightarrow> string list list \<Rightarrow> string option \<times> string list list" where
  "failExec bad dir args w = (if take 1 args = [bad] then (None, w @ [args]) else (Some [], w @ [args]))"

definition stNew :: "string list list sys" where
  "stNew = \<lparr>store = db0\<lparr>t_reviewers := [\<lparr>Name = [], CurrentSha = None\<rparr>]\<rparr>, tree = [], out = []\<rparr>"

text \<open>A repository on the branch \<open>feature\<close> with three commits after \<open>main\<close>, and a store
  just created.\<close>

definition startExec ::
  "string \<Rightarrow> string list \<Rightarrow> string list list \<Rightarrow> string option \<times> string list list" where
  "startExec dir args w =
     (if args = [''branch'', ''--show-current''] then (Some ''feature'', w @ [args])
      else if take 1 args = [''rev-parse''] then (Some ''ba5e'', w @ [args])
      else if take 1 args = [''rev-list'']
        then (Some (''ab12'' @ nl @ ''ab34'' @ nl @ ''ab56''), w @ [args])
      else (Some [], w @ [args]))"

definition stEmpty :: "string list list sys" where
  "stEmpty = \<lparr>store = \<lparr>t_session = [], t_commits = [], t_reviewers = [], t_comments = []\<rparr>,
              tree = [], out = []\<rparr>"

definition startMain :: StartCmd where
  "startMain = \<lparr>start_Base = ''main'', start_Name = []\<rparr>"

section \<open>Properties\<close>

subsection \<open>Queries\<close>

lemma requireActive_None_iff:
  "requireActive E st = None \<longleftrightarrow> \<not> faults_of E SessionExists \<and> t_session (store st) \<noteq> []"
  by (auto simp: requireActive_def q_SessionExists_def)



subsection \<open>Claim C1: deleting a comment\<close>




















subsection \<open>Claim C2: what \<open>list\<close> keeps\<close>












subsection \<open>Claim C10: a commit prefix that matches several commits, or none\<close>

lemma find_append': "find P (xs @ ys) = (case find P xs of None \<Rightarrow> find P ys | Some x \<Rightarrow> Some x)"
  by (induction xs) auto

lemma matchCommit_first:
  assumes "commit \<noteq> []" "\<forall>cm \<in> set pre. \<not> HasPrefix (Sha cm) commit" "HasPrefix (Sha m) commit"
  shows "matchCommit (pre @ m # post) commit = Sha m"
proof -
  have "find (\<lambda>cm. HasPrefix (Sha cm) commit) pre = None" using assms(2) by (simp add: find_None_iff)
  then show ?thesis using assms(1,3) by (simp add: matchCommit_def find_append')
qed

lemma matchCommit_none:
  assumes "\<forall>cm \<in> set commits. \<not> HasPrefix (Sha cm) commit"
  shows "matchCommit commits commit = []"
proof -
  have "find (\<lambda>cm. HasPrefix (Sha cm) commit) commits = None" using assms by (simp add: find_None_iff)
  then show ?thesis by (simp add: matchCommit_def)
qed

text \<open>
  C10. With a commit prefix given: when no commit of the list starts with it, the
  result is empty, and it is a result, not an error; when \<open>m\<close> is the first commit of the
  list that starts with it, the prefix stands for \<open>m\<close> and the result is what the list
  \<open>[m]\<close> alone gives, whatever commits follow \<open>m\<close> and whether or not they start with the
  prefix too.
\<close>

theorem filterComments_first_match:
  "commit \<noteq> [] \<longrightarrow>
    ((\<forall>cm \<in> set commits. \<not> HasPrefix (Sha cm) commit) \<longrightarrow>
       filterComments cs commits idMap commit unresolved creator path = Some []) \<and>
    ((\<forall>cm \<in> set pre. \<not> HasPrefix (Sha cm) commit) \<and> HasPrefix (Sha m) commit \<longrightarrow>
       matchCommit (pre @ m # post) commit = Sha m \<and>
       filterComments cs (pre @ m # post) idMap commit unresolved creator path =
         filterComments cs [m] idMap commit unresolved creator path)"
proof (intro impI conjI)
  assume "commit \<noteq> []" "\<forall>cm \<in> set commits. \<not> HasPrefix (Sha cm) commit"
  then show "filterComments cs commits idMap commit unresolved creator path = Some []"
    using matchCommit_none[of commits commit] by (simp add: filterComments_def)
next
  assume c: "commit \<noteq> []"
    and h: "(\<forall>cm \<in> set pre. \<not> HasPrefix (Sha cm) commit) \<and> HasPrefix (Sha m) commit"
  show a: "matchCommit (pre @ m # post) commit = Sha m"
    using c h by (intro matchCommit_first) simp_all
  have b: "matchCommit [m] commit = Sha m"
    using c h matchCommit_first[of commit "[]" m "[]"] by simp
  show "filterComments cs (pre @ m # post) idMap commit unresolved creator path =
         filterComments cs [m] idMap commit unresolved creator path"
    using c by (simp add: filterComments_def a b)
qed

subsection \<open>Claims C3, C4 and C7: navigation\<close>

lemma RunSilent_exec:
  "RunSilent E g args w = (r, w') \<Longrightarrow>
     (r = None \<longleftrightarrow> (\<exists>t. exec E (WorkDir g) args w = (Some t, w'))) \<and>
     (r \<noteq> None \<longleftrightarrow> exec E (WorkDir g) args w = (None, w'))"
  by (auto simp: RunSilent_def split: prod.splits option.splits)

lemma jumpTo_ok:
  assumes "jumpTo E g n target st = (None, st')"
  shows "\<exists>ref w1. parentRefOf (faults_of E) target (store st) = Inr ref \<and>
           Checkout E g ref (tree st) = (None, w1) \<and>
           ReadTreeReset E g (Sha target) w1 = (None, tree st') \<and>
           q_UpdateReviewerCurrent (faults_of E) (Some (Sha target)) n (store st) = Inr (store st') \<and>
           out st' = out st"
  using assms
  by (auto simp: jumpTo_def split: sum.splits prod.splits option.splits)

lemma jumpTo_error:
  assumes "jumpTo E g n target st = (Some e, st')"
  shows "store st' = store st \<and> out st' = out st"
  using assms
  by (auto simp: jumpTo_def split: sum.splits prod.splits option.splits)

lemma jumpTo_checkout_fails:
  assumes "parentRefOf (faults_of E) target (store st) = Inr ref"
    "Checkout E g ref (tree st) = (Some e, w1)"
  shows "jumpTo E g n target st = (Some (Wrap e ''failed to checkout parent''), st\<lparr>tree := w1\<rparr>)"
  using assms by (simp add: jumpTo_def)

lemma jumpTo_readtree_fails:
  assumes "parentRefOf (faults_of E) target (store st) = Inr ref"
    "Checkout E g ref (tree st) = (None, w1)"
    "ReadTreeReset E g (Sha target) w1 = (Some e, w2)"
  shows "jumpTo E g n target st = (Some (Wrap e ''failed to read-tree target''), st\<lparr>tree := w2\<rparr>)"
  using assms by (simp add: jumpTo_def)

lemma q_UpdateReviewerCurrent_Inr:
  assumes "q_UpdateReviewerCurrent flt sha n d = Inr d'"
  shows "d' = d\<lparr>t_reviewers := map (\<lambda>r. if Name r = n then r\<lparr>CurrentSha := sha\<rparr> else r) (t_reviewers d)\<rparr>"
  using assms by (auto simp: q_UpdateReviewerCurrent_def split: if_splits)

lemma showMove_store: "store (showMove E g target shown tot st) = store st"
  by (auto simp: showMove_def text_or_empty_def out_Printf_def Let_def split: prod.splits sum.splits)

lemma NextCmd_Run_jump:
  assumes "requireActive E st = None"
    "q_GetReviewer (faults_of E) (Reviewer g) (store st) = Inr r"
    "q_ListCommits (faults_of E) (store st) = Inr commits"
    "nextIdx r commits = Inr i" "0 \<le> i" "i < int (length commits)"
  shows "NextCmd_Run E g st =
     (case jumpTo E g (Reviewer g) (commits ! nat i) st of
        (Some e, sj) \<Rightarrow> (Some e, sj)
      | (None, sj) \<Rightarrow> (None, showMove E g (commits ! nat i) (wrap64 (i + 1)) (int (length commits)) sj))"
  using assms by (simp add: NextCmd_Run_def Let_def)

lemma q_ListCommits_set:
  "q_ListCommits flt d = Inr commits \<Longrightarrow> set commits = set (t_commits d)"
  by (auto simp: q_ListCommits_def split: if_splits)

lemma NextCmd_Run_cases:
  assumes run: "NextCmd_Run E g st = (res, sn)"
  shows "store sn = store st \<or>
         (res = None \<and> (\<exists>target sj. target \<in> set (t_commits (store st)) \<and>
             jumpTo E g (Reviewer g) target st = (None, sj) \<and> store sn = store sj))"
proof (cases "requireActive E st")
  case (Some e)
  then show ?thesis using run by (simp add: NextCmd_Run_def)
next
  case act: None
  show ?thesis
  proof (cases "q_GetReviewer (faults_of E) (Reviewer g) (store st)")
    case (Inl e)
    then show ?thesis using run act by (simp add: NextCmd_Run_def)
  next
    case r: (Inr r)
    show ?thesis
    proof (cases "q_ListCommits (faults_of E) (store st)")
      case (Inl e)
      then show ?thesis using run act r by (simp add: NextCmd_Run_def)
    next
      case cs: (Inr commits)
      show ?thesis
      proof (cases "nextIdx r commits")
        case (Inl e)
        then show ?thesis using run act r cs by (simp add: NextCmd_Run_def)
      next
        case i: (Inr i)
        consider "i \<ge> int (length commits)" | "i < 0" "i < int (length commits)"
          | "0 \<le> i" "i < int (length commits)"
          by linarith
        then show ?thesis
        proof cases
          case 1
          then show ?thesis
            using run act r cs i by (auto simp: NextCmd_Run_def Let_def out_Printf_def out_Ok_def)
        next
          case 2
          then show ?thesis using run act r cs i by (auto simp: NextCmd_Run_def Let_def)
        next
          case 3
          let ?t = "commits ! nat i"
          have tin: "?t \<in> set (t_commits (store st))"
          proof -
            have "nat i < length commits" using 3 by linarith
            then have "?t \<in> set commits" by (rule nth_mem)
            then show ?thesis using q_ListCommits_set[OF cs] by simp
          qed
          note eq = NextCmd_Run_jump[OF act r cs i 3]
          obtain rj sj where j: "jumpTo E g (Reviewer g) ?t st = (rj, sj)" by (cases "jumpTo E g (Reviewer g) ?t st")
          show ?thesis
          proof (cases rj)
            case None
            then have "res = None" "sn = showMove E g ?t (wrap64 (i + 1)) (int (length commits)) sj"
              using run eq j by simp_all
            then have "res = None \<and> store sn = store sj" by (simp add: showMove_store)
            then show ?thesis using tin j None by blast
          next
            case (Some e)
            then have "sn = sj" using run eq j by simp
            then show ?thesis using jumpTo_error[of E g "Reviewer g" ?t st e sj] j Some by simp
          qed
        qed
      qed
    qed
  qed
qed

lemma NextCmd_Run_error:
  assumes "NextCmd_Run E g st = (Some e, sn)"
  shows "store sn = store st"
  using NextCmd_Run_cases[OF assms] by auto

lemma find_mem: "find P xs = Some x \<Longrightarrow> x \<in> set xs"
  by (auto simp: find_Some_iff)

lemma JumpCmd_Run_cases:
  assumes "JumpCmd_Run E g h st = (res, sn)"
  shows "store sn = store st \<or>
         (\<exists>target sj. target \<in> set (t_commits (store st)) \<and>
             jumpTo E g (Reviewer g) target st = (None, sj) \<and> store sn = store sj)"
  using assms
  by (auto simp: JumpCmd_Run_def q_FindCommitBySHAPrefix_def showMove_store
      split: option.splits sum.splits if_splits prod.splits dest: jumpTo_error find_mem)

lemma JumpCmd_Run_jump_error:
  assumes "requireActive E st = None"
    "q_FindCommitBySHAPrefix (faults_of E) h (store st) = Inr target"
    "jumpTo E g (Reviewer g) target st = (Some e, sj)"
  shows "JumpCmd_Run E g h st = (Some e, sj)"
  using assms by (simp add: JumpCmd_Run_def)

lemma NextCmd_Run_done:
  assumes "requireActive E st = None"
    "q_GetReviewer (faults_of E) (Reviewer g) (store st) = Inr r"
    "q_ListCommits (faults_of E) (store st) = Inr commits"
    "nextIdx r commits = Inr i" "i \<ge> int (length commits)"
  shows "NextCmd_Run E g st =
     (None, st\<lparr>out := out st @
        [Stdout nl, Stdout (colorize E colorGreen ''All commits reviewed.'' @ nl), Stdout nl,
         Stdout ''  git review finish    Complete the review\<newline>'',
         Stdout ''  git review list      View all comments\<newline>'']\<rparr>)"
  using assms by (simp add: NextCmd_Run_def Let_def out_Printf_def out_Ok_def)

lemma wrap64_id: "- (2 ^ 63) \<le> i \<Longrightarrow> i < 2 ^ 63 \<Longrightarrow> wrap64 i = i"
  by (simp add: wrap64_def)

lemma nextIdx_cursor:
  assumes "CurrentSha r = Some sha" "find (\<lambda>cm. Sha cm = sha) commits = Some cm"
    "0 \<le> Position cm" "Position cm < 2 ^ 63 - 1"
  shows "nextIdx r commits = Inr (Position cm + 1)"
  using assms by (simp add: nextIdx_def findCommitPosition_def wrap64_id)

lemma nth_positions:
  assumes "map Position commits = map int [0..<length commits]" "0 \<le> i" "i < int (length commits)"
  shows "Position (commits ! nat i) = i"
proof -
  have n: "nat i < length commits" using assms(2,3) by linarith
  have "Position (commits ! nat i) = map Position commits ! nat i" using n by simp
  also have "\<dots> = map int [0..<length commits] ! nat i" using assms(1) by simp
  also have "\<dots> = i" using n assms(2) by simp
  finally show ?thesis .
qed

text \<open>
  C3. A successful \<open>jumpTo\<close> has run the checkout of the parent point and then the
  read-tree of the target, both with success, and has set the cursor of the reviewer
  to the target; a failed one leaves the store as it was. When the checkout fails, or
  the checkout succeeds and the read-tree fails, \<open>jumpTo\<close> returns that error and the
  store is unchanged. \<open>next\<close> and \<open>jump\<close> change the store only through a successful
  \<open>jumpTo\<close> on a commit of the session, and they return the error of a failed one.
\<close>

theorem cursor_moves_after_both_steps:
  "(jumpTo E g n target st = (None, sa) \<longrightarrow>
      (\<exists>ref wa. parentRefOf (faults_of E) target (store st) = Inr ref \<and>
         Checkout E g ref (tree st) = (None, wa) \<and>
         ReadTreeReset E g (Sha target) wa = (None, tree sa) \<and>
         store sa = (store st)\<lparr>t_reviewers :=
           map (\<lambda>r. if Name r = n then r\<lparr>CurrentSha := Some (Sha target)\<rparr> else r)
             (t_reviewers (store st))\<rparr>)) \<and>
   (jumpTo E g n target st = (Some e, sb) \<longrightarrow> store sb = store st) \<and>
   (parentRefOf (faults_of E) target (store st) = Inr ref \<and>
    Checkout E g ref (tree st) = (Some ec, wc) \<longrightarrow>
      fst (jumpTo E g n target st) = Some (Wrap ec ''failed to checkout parent'') \<and>
      store (snd (jumpTo E g n target st)) = store st) \<and>
   (parentRefOf (faults_of E) target (store st) = Inr ref \<and>
    Checkout E g ref (tree st) = (None, wc) \<and>
    ReadTreeReset E g (Sha target) wc = (Some er, wd) \<longrightarrow>
      fst (jumpTo E g n target st) = Some (Wrap er ''failed to read-tree target'') \<and>
      store (snd (jumpTo E g n target st)) = store st) \<and>
   (NextCmd_Run E g st = (rn, sn) \<longrightarrow>
      store sn = store st \<or>
      (rn = None \<and> (\<exists>tn sj. tn \<in> set (t_commits (store st)) \<and>
          jumpTo E g (Reviewer g) tn st = (None, sj) \<and> store sn = store sj))) \<and>
   (JumpCmd_Run E g h st = (rj, sk) \<longrightarrow>
      store sk = store st \<or>
      (\<exists>tj sj. tj \<in> set (t_commits (store st)) \<and>
          jumpTo E g (Reviewer g) tj st = (None, sj) \<and> store sk = store sj)) \<and>
   (requireActive E st = None \<and>
    q_FindCommitBySHAPrefix (faults_of E) h (store st) = Inr tk \<and>
    jumpTo E g (Reviewer g) tk st = (Some ej, sl) \<longrightarrow>
      JumpCmd_Run E g h st = (Some ej, sl)) \<and>
   (requireActive E st = None \<and>
    q_GetReviewer (faults_of E) (Reviewer g) (store st) = Inr r \<and>
    q_ListCommits (faults_of E) (store st) = Inr commits \<and>
    nextIdx r commits = Inr i \<and> 0 \<le> i \<and> i < int (length commits) \<and>
    jumpTo E g (Reviewer g) (commits ! nat i) st = (Some en, sm) \<longrightarrow>
      NextCmd_Run E g st = (Some en, sm))"
proof (intro conjI impI)
  assume a: "jumpTo E g n target st = (None, sa)"
  from jumpTo_ok[OF a] obtain ref wa where
    p: "parentRefOf (faults_of E) target (store st) = Inr ref"
    and c: "Checkout E g ref (tree st) = (None, wa)"
    and r: "ReadTreeReset E g (Sha target) wa = (None, tree sa)"
    and u: "q_UpdateReviewerCurrent (faults_of E) (Some (Sha target)) n (store st) = Inr (store sa)"
    by (elim exE conjE) (rule that; assumption)
  show "\<exists>ref wa. parentRefOf (faults_of E) target (store st) = Inr ref \<and>
         Checkout E g ref (tree st) = (None, wa) \<and>
         ReadTreeReset E g (Sha target) wa = (None, tree sa) \<and>
         store sa = (store st)\<lparr>t_reviewers :=
           map (\<lambda>r. if Name r = n then r\<lparr>CurrentSha := Some (Sha target)\<rparr> else r)
             (t_reviewers (store st))\<rparr>"
    using p c r q_UpdateReviewerCurrent_Inr[OF u] by (intro exI[of _ ref] exI[of _ wa]) simp
next
  assume "jumpTo E g n target st = (Some e, sb)"
  then show "store sb = store st" using jumpTo_error by blast
next
  assume h: "parentRefOf (faults_of E) target (store st) = Inr ref \<and>
    Checkout E g ref (tree st) = (Some ec, wc)"
  then have j: "jumpTo E g n target st = (Some (Wrap ec ''failed to checkout parent''), st\<lparr>tree := wc\<rparr>)"
    using jumpTo_checkout_fails[of E target st ref g ec wc n] by simp
  show "fst (jumpTo E g n target st) = Some (Wrap ec ''failed to checkout parent'')"
    using j by simp
  show "store (snd (jumpTo E g n target st)) = store st" using j by simp
next
  assume h: "parentRefOf (faults_of E) target (store st) = Inr ref \<and>
    Checkout E g ref (tree st) = (None, wc) \<and>
    ReadTreeReset E g (Sha target) wc = (Some er, wd)"
  then have j: "jumpTo E g n target st = (Some (Wrap er ''failed to read-tree target''), st\<lparr>tree := wd\<rparr>)"
    using jumpTo_readtree_fails[of E target st ref g wc er wd n] by simp
  show "fst (jumpTo E g n target st) = Some (Wrap er ''failed to read-tree target'')"
    using j by simp
  show "store (snd (jumpTo E g n target st)) = store st" using j by simp
next
  assume "NextCmd_Run E g st = (rn, sn)"
  then show "store sn = store st \<or>
      (rn = None \<and> (\<exists>tn sj. tn \<in> set (t_commits (store st)) \<and>
          jumpTo E g (Reviewer g) tn st = (None, sj) \<and> store sn = store sj))"
    by (rule NextCmd_Run_cases)
next
  assume "JumpCmd_Run E g h st = (rj, sk)"
  then show "store sk = store st \<or>
      (\<exists>tj sj. tj \<in> set (t_commits (store st)) \<and>
          jumpTo E g (Reviewer g) tj st = (None, sj) \<and> store sk = store sj)"
    by (rule JumpCmd_Run_cases)
next
  assume "requireActive E st = None \<and>
    q_FindCommitBySHAPrefix (faults_of E) h (store st) = Inr tk \<and>
    jumpTo E g (Reviewer g) tk st = (Some ej, sl)"
  then show "JumpCmd_Run E g h st = (Some ej, sl)"
    using JumpCmd_Run_jump_error[of E st h tk g ej sl] by simp
next
  assume h: "requireActive E st = None \<and>
    q_GetReviewer (faults_of E) (Reviewer g) (store st) = Inr r \<and>
    q_ListCommits (faults_of E) (store st) = Inr commits \<and>
    nextIdx r commits = Inr i \<and> 0 \<le> i \<and> i < int (length commits) \<and>
    jumpTo E g (Reviewer g) (commits ! nat i) st = (Some en, sm)"
  then have "NextCmd_Run E g st =
     (case jumpTo E g (Reviewer g) (commits ! nat i) st of
        (Some e, sj) \<Rightarrow> (Some e, sj)
      | (None, sj) \<Rightarrow> (None, showMove E g (commits ! nat i) (wrap64 (i + 1)) (int (length commits)) sj))"
    by (intro NextCmd_Run_jump[of E st g r commits i]) simp_all
  then show "NextCmd_Run E g st = (Some en, sm)" using h by simp
qed

text \<open>
  C4. For an active session and a reviewer of it: without a cursor \<open>next\<close> aims at
  index 0, with a cursor on the commit \<open>cm\<close> at one more than the position of \<open>cm\<close>. When
  that index is not below the number of commits, \<open>next\<close> succeeds, prints that all
  commits are reviewed, and changes neither the store nor the working copy. Otherwise
  it moves to the commit at that index of the list ordered by position, whose position
  is the index when the positions are \<open>0, 1, ...\<close> without a gap.
\<close>

theorem next_targets_following_position:
  "requireActive E st = None \<and>
   q_GetReviewer (faults_of E) (Reviewer g) (store st) = Inr r \<and>
   q_ListCommits (faults_of E) (store st) = Inr commits \<longrightarrow>
     (CurrentSha r = None \<longrightarrow> nextIdx r commits = Inr 0) \<and>
     (\<forall>sha cm. CurrentSha r = Some sha \<and> find (\<lambda>cm. Sha cm = sha) commits = Some cm \<and>
         0 \<le> Position cm \<and> Position cm < 2 ^ 63 - 1 \<longrightarrow>
         nextIdx r commits = Inr (Position cm + 1)) \<and>
     (\<forall>i. nextIdx r commits = Inr i \<and> i \<ge> int (length commits) \<longrightarrow>
         NextCmd_Run E g st =
           (None, st\<lparr>out := out st @
              [Stdout nl, Stdout (colorize E colorGreen ''All commits reviewed.'' @ nl), Stdout nl,
               Stdout ''  git review finish    Complete the review\<newline>'',
               Stdout ''  git review list      View all comments\<newline>'']\<rparr>)) \<and>
     (\<forall>i. nextIdx r commits = Inr i \<and> 0 \<le> i \<and> i < int (length commits) \<longrightarrow>
         NextCmd_Run E g st =
           (case jumpTo E g (Reviewer g) (commits ! nat i) st of
              (Some e, sj) \<Rightarrow> (Some e, sj)
            | (None, sj) \<Rightarrow>
                (None, showMove E g (commits ! nat i) (wrap64 (i + 1)) (int (length commits)) sj)) \<and>
         (map Position commits = map int [0..<length commits] \<longrightarrow>
            Position (commits ! nat i) = i))"
proof (intro impI)
  assume h: "requireActive E st = None \<and>
   q_GetReviewer (faults_of E) (Reviewer g) (store st) = Inr r \<and>
   q_ListCommits (faults_of E) (store st) = Inr commits"
  then have act: "requireActive E st = None"
    and r: "q_GetReviewer (faults_of E) (Reviewer g) (store st) = Inr r"
    and cs: "q_ListCommits (faults_of E) (store st) = Inr commits"
    by simp_all
  have 1: "CurrentSha r = None \<longrightarrow> nextIdx r commits = Inr 0"
    by (simp add: nextIdx_def)
  have 2: "\<forall>sha cm. CurrentSha r = Some sha \<and> find (\<lambda>cm. Sha cm = sha) commits = Some cm \<and>
         0 \<le> Position cm \<and> Position cm < 2 ^ 63 - 1 \<longrightarrow>
         nextIdx r commits = Inr (Position cm + 1)"
    using nextIdx_cursor[of r _ commits] by blast
  have 3: "\<forall>i. nextIdx r commits = Inr i \<and> i \<ge> int (length commits) \<longrightarrow>
         NextCmd_Run E g st =
           (None, st\<lparr>out := out st @
              [Stdout nl, Stdout (colorize E colorGreen ''All commits reviewed.'' @ nl), Stdout nl,
               Stdout ''  git review finish    Complete the review\<newline>'',
               Stdout ''  git review list      View all comments\<newline>'']\<rparr>)"
    using NextCmd_Run_done[OF act r cs] by blast
  have 4: "\<forall>i. nextIdx r commits = Inr i \<and> 0 \<le> i \<and> i < int (length commits) \<longrightarrow>
         NextCmd_Run E g st =
           (case jumpTo E g (Reviewer g) (commits ! nat i) st of
              (Some e, sj) \<Rightarrow> (Some e, sj)
            | (None, sj) \<Rightarrow>
                (None, showMove E g (commits ! nat i) (wrap64 (i + 1)) (int (length commits)) sj)) \<and>
         (map Position commits = map int [0..<length commits] \<longrightarrow>
            Position (commits ! nat i) = i)"
  proof (intro allI impI conjI)
    fix i
    assume a: "nextIdx r commits = Inr i \<and> 0 \<le> i \<and> i < int (length commits)"
    then show "NextCmd_Run E g st =
           (case jumpTo E g (Reviewer g) (commits ! nat i) st of
              (Some e, sj) \<Rightarrow> (Some e, sj)
            | (None, sj) \<Rightarrow>
                (None, showMove E g (commits ! nat i) (wrap64 (i + 1)) (int (length commits)) sj))"
      by (intro NextCmd_Run_jump[OF act r cs]) simp_all
    assume "map Position commits = map int [0..<length commits]"
    then show "Position (commits ! nat i) = i" using a by (intro nth_positions) simp_all
  qed
  show "(CurrentSha r = None \<longrightarrow> nextIdx r commits = Inr 0) \<and>
     (\<forall>sha cm. CurrentSha r = Some sha \<and> find (\<lambda>cm. Sha cm = sha) commits = Some cm \<and>
         0 \<le> Position cm \<and> Position cm < 2 ^ 63 - 1 \<longrightarrow>
         nextIdx r commits = Inr (Position cm + 1)) \<and>
     (\<forall>i. nextIdx r commits = Inr i \<and> i \<ge> int (length commits) \<longrightarrow>
         NextCmd_Run E g st =
           (None, st\<lparr>out := out st @
              [Stdout nl, Stdout (colorize E colorGreen ''All commits reviewed.'' @ nl), Stdout nl,
               Stdout ''  git review finish    Complete the review\<newline>'',
               Stdout ''  git review list      View all comments\<newline>'']\<rparr>)) \<and>
     (\<forall>i. nextIdx r commits = Inr i \<and> 0 \<le> i \<and> i < int (length commits) \<longrightarrow>
         NextCmd_Run E g st =
           (case jumpTo E g (Reviewer g) (commits ! nat i) st of
              (Some e, sj) \<Rightarrow> (Some e, sj)
            | (None, sj) \<Rightarrow>
                (None, showMove E g (commits ! nat i) (wrap64 (i + 1)) (int (length commits)) sj)) \<and>
         (map Position commits = map int [0..<length commits] \<longrightarrow>
            Position (commits ! nat i) = i))"
    by (intro conjI 1 2 3 4)
qed




subsection \<open>Claim C8: the rows that \<open>start\<close> inserts\<close>

lemma q_InsertCommit_Inr:
  "q_InsertCommit flt row d = Inr d' \<Longrightarrow> d' = d\<lparr>t_commits := t_commits d @ [row]\<rparr>"
  by (auto simp: q_InsertCommit_def split: if_splits)

lemma insertCommits_Inr:
  "insertCommits E g i shas d w = (Inr d', w') \<Longrightarrow>
     \<exists>rows. t_commits d' = t_commits d @ rows \<and> map Sha rows = shas \<and>
            map Position rows = map int [i..<i + length shas] \<and>
            t_session d' = t_session d \<and> t_reviewers d' = t_reviewers d \<and>
            t_comments d' = t_comments d"
proof (induction shas arbitrary: i d w)
  case Nil
  then show ?case by simp
next
  case (Cons sha shas)
  obtain msg w1 where s: "text_or_empty (Subject E g sha w) = (msg, w1)"
    by (cases "text_or_empty (Subject E g sha w)")
  let ?row = "\<lparr>Sha = sha, Message = msg, Position = int i\<rparr>"
  from Cons.prems s obtain d1 where
    ins: "q_InsertCommit (faults_of E) ?row d = Inr d1"
    and rec: "insertCommits E g (Suc i) shas d1 w1 = (Inr d', w')"
    by (auto split: sum.splits)
  have d1: "d1 = d\<lparr>t_commits := t_commits d @ [?row]\<rparr>" using ins by (rule q_InsertCommit_Inr)
  from Cons.IH[OF rec] obtain rows where
    rows: "t_commits d' = t_commits d1 @ rows" "map Sha rows = shas"
      "map Position rows = map int [Suc i..<Suc i + length shas]"
      "t_session d' = t_session d1" "t_reviewers d' = t_reviewers d1" "t_comments d' = t_comments d1"
    by (elim exE conjE) (rule that; assumption)
  have up: "[i..<i + length (sha # shas)] = i # [Suc i..<Suc i + length shas]"
    by (simp add: upt_rec)
  show ?case
    using rows d1 up by (intro exI[of _ "?row # rows"]) simp
qed

lemma startTx_Inr:
  assumes "startTx E g base branch name shas d w = (Inr d', w')"
  shows "t_session d' = t_session d @ [\<lparr>BaseRef = base, Branch = branch, SessionCreatedAt = now_utc E\<rparr>] \<and>
         (\<exists>rows. t_commits d' = t_commits d @ rows \<and> map Sha rows = shas \<and>
                 map Position rows = map int [0..<length shas]) \<and>
         t_reviewers d' = t_reviewers d @ [\<lparr>Name = name, CurrentSha = None\<rparr>] \<and>
         name \<notin> Name ` set (t_reviewers d) \<and>
         t_comments d' = t_comments d"
proof -
  let ?srow = "\<lparr>BaseRef = base, Branch = branch, SessionCreatedAt = now_utc E\<rparr>"
  let ?rrow = "\<lparr>Name = name, CurrentSha = None\<rparr>"
  from assms obtain d1 d2 w1 where
    a: "q_InsertSession (faults_of E) ?srow d = Inr d1"
    and b: "insertCommits E g 0 shas d1 w = (Inr d2, w1)"
    and c: "q_InsertReviewer (faults_of E) ?rrow d2 = Inr d'"
    by (auto simp: startTx_def split: sum.splits prod.splits)
  have d1: "d1 = d\<lparr>t_session := t_session d @ [?srow]\<rparr>"
    using a by (auto simp: q_InsertSession_def split: if_splits)
  have d': "d' = d2\<lparr>t_reviewers := t_reviewers d2 @ [?rrow]\<rparr>" "name \<notin> Name ` set (t_reviewers d2)"
    using c by (auto simp: q_InsertReviewer_def split: if_splits)
  from insertCommits_Inr[OF b] obtain rows where
    rows: "t_commits d2 = t_commits d1 @ rows" "map Sha rows = shas"
      "map Position rows = map int [0..<0 + length shas]"
      "t_session d2 = t_session d1" "t_reviewers d2 = t_reviewers d1" "t_comments d2 = t_comments d1"
    by (elim exE conjE) (rule that; assumption)
  have "\<exists>rows. t_commits d' = t_commits d @ rows \<and> map Sha rows = shas \<and>
                 map Position rows = map int [0..<length shas]"
    using rows d1 d' by (intro exI[of _ rows]) simp
  then show ?thesis using rows d1 d' by simp
qed

lemma WithTx_cases:
  assumes "WithTx flt fn d x = (res, d', x')"
  shows "(res \<noteq> None \<and> d' = d) \<or> (res = None \<and> (\<exists>y. fn d x = (Inr d', y)))"
  using assms
  by (auto simp: WithTx_def split: if_splits prod.splits sum.splits)

lemma detectBase_store: "detectBase E g refs st = (b, st') \<Longrightarrow> store st' = store st"
proof (induction refs arbitrary: st)
  case Nil
  then show ?case by simp
next
  case (Cons ref refs)
  then show ?case
    by (auto simp: out_Info_def text_or_empty_def split: prod.splits bool.splits sum.splits if_splits)
qed

lemma resolveBase_store: "resolveBase E g c st = (r, st') \<Longrightarrow> store st' = store st"
  by (auto simp del: detectBase.simps simp: resolveBase_def
      split: if_splits prod.splits sum.splits dest: detectBase_store)

lemma startedBanner_store: "store (startedBanner E n l st) = store st"
  by (simp add: startedBanner_def out_Printf_def out_Ok_def Let_def)

lemma startJump_store:
  assumes "startJump E g c name shas st = (r, st')"
  shows "store st' = store st \<or>
         (\<exists>first::commit. store st' = (store st)\<lparr>t_reviewers :=
              map (\<lambda>r. if Name r = name then r\<lparr>CurrentSha := Some (Sha first)\<rparr> else r)
                (t_reviewers (store st))\<rparr>)"
proof -
  obtain jr w where j: "(if start_Name c \<noteq> [] then
              (case WorktreeAdd E g (worktreePath g (start_Name c)) (tree st) of
                 (Some e, w) \<Rightarrow> (Inl (Wrap e ''failed to create worktree''), w)
               | (None, w) \<Rightarrow>
                   (Inr (ForWorktree g (start_Name c) (worktreePath g (start_Name c))), w))
            else (Inr g, tree st)) = (jr, w)"
    by (cases "(if start_Name c \<noteq> [] then
              (case WorktreeAdd E g (worktreePath g (start_Name c)) (tree st) of
                 (Some e, w) \<Rightarrow> (Inl (Wrap e ''failed to create worktree''), w)
               | (None, w) \<Rightarrow>
                   (Inr (ForWorktree g (start_Name c) (worktreePath g (start_Name c))), w))
            else (Inr g, tree st))")
  show ?thesis
  proof (cases jr)
    case (Inl e)
    then show ?thesis using assms j by (auto simp: startJump_def)
  next
    case (Inr jumpGit)
    show ?thesis
    proof (cases "q_GetCommitByPosition (faults_of E) 0 (store st)")
      case (Inl e)
      then show ?thesis using assms j Inr by (auto simp: startJump_def)
    next
      case fc: (Inr firstCommit)
      obtain rj sj where jt: "jumpTo E jumpGit name firstCommit (st\<lparr>tree := w\<rparr>) = (rj, sj)"
        by (cases "jumpTo E jumpGit name firstCommit (st\<lparr>tree := w\<rparr>)")
      show ?thesis
      proof (cases rj)
        case (Some e)
        then have "st' = sj" using assms j Inr fc jt by (auto simp: startJump_def)
        moreover have "store sj = store st" using jumpTo_error[of E jumpGit name firstCommit "st\<lparr>tree := w\<rparr>" e sj] jt Some by simp
        ultimately show ?thesis by simp
      next
        case None
        then have "store st' = store sj"
          using assms j Inr fc jt
          by (auto simp: startJump_def startedBanner_store split: prod.splits)
        moreover from jumpTo_ok[of E jumpGit name firstCommit "st\<lparr>tree := w\<rparr>" sj] jt None
        have u: "q_UpdateReviewerCurrent (faults_of E) (Some (Sha firstCommit)) name (store st) = Inr (store sj)"
          by auto
        ultimately have "store st' = (store st)\<lparr>t_reviewers :=
              map (\<lambda>r. if Name r = name then r\<lparr>CurrentSha := Some (Sha firstCommit)\<rparr> else r)
                (t_reviewers (store st))\<rparr>"
          using q_UpdateReviewerCurrent_Inr[OF u] by simp
        then have "\<exists>first::commit. store st' = (store st)\<lparr>t_reviewers :=
              map (\<lambda>r. if Name r = name then r\<lparr>CurrentSha := Some (Sha first)\<rparr> else r)
                (t_reviewers (store st))\<rparr>"
          by (rule exI[where x = firstCommit])
        then show ?thesis by (rule disjI2)
      qed
    qed
  qed
qed

lemma startSession_store:
  assumes run: "startSession E g c st = (res, sa)"
  shows "store sa = store st \<or>
     (\<exists>base branch shas rows cur w w'.
        shas \<noteq> [] \<and> RevList E g (base @ ''..HEAD'') w = (Inr shas, w') \<and>
        t_session (store sa) = t_session (store st) @
          [\<lparr>BaseRef = base, Branch = branch, SessionCreatedAt = now_utc E\<rparr>] \<and>
        t_commits (store sa) = t_commits (store st) @ rows \<and>
        map Sha rows = shas \<and> map Position rows = map int [0..<length shas] \<and>
        t_reviewers (store sa) = t_reviewers (store st) @
          [\<lparr>Name = (if start_Name c = [] then Reviewer g else start_Name c), CurrentSha = cur\<rparr>] \<and>
        t_comments (store sa) = t_comments (store st))"
proof -
  let ?name = "if start_Name c = [] then Reviewer g else start_Name c"
  obtain rb w0 where cb: "CurrentBranch E g (tree st) = (rb, w0)"
    by (cases "CurrentBranch E g (tree st)")
  show ?thesis
  proof (cases rb)
    case (Inl e)
    then show ?thesis using run cb by (auto simp: startSession_def)
  next
    case (Inr branch)
    show ?thesis
    proof (cases "branch = []")
      case True
      then show ?thesis using run cb Inr by (auto simp: startSession_def)
    next
      case ne: False
      obtain rbase sb where rbs: "resolveBase E g c (st\<lparr>tree := w0\<rparr>) = (rbase, sb)"
        by (cases "resolveBase E g c (st\<lparr>tree := w0\<rparr>)")
      have sbs: "store sb = store st" using resolveBase_store[OF rbs] by simp
      show ?thesis
      proof (cases rbase)
        case (Inl e)
        then show ?thesis using run cb Inr ne rbs sbs by (auto simp: startSession_def)
      next
        case base: (Inr base)
        obtain rl w2 where rl: "RevList E g (base @ ''..HEAD'') (tree sb) = (rl, w2)"
          by (cases "RevList E g (base @ ''..HEAD'') (tree sb)")
        show ?thesis
        proof (cases rl)
          case (Inl e)
          then show ?thesis using run cb Inr ne rbs sbs base rl by (auto simp: startSession_def)
        next
          case shas: (Inr shas)
          show ?thesis
          proof (cases "shas = []")
            case True
            then show ?thesis
              using run cb Inr ne rbs sbs base rl shas by (auto simp: startSession_def)
          next
            case sne: False
            obtain rt d w3 where tx: "WithTx (faults_of E) (startTx E g base branch ?name shas)
                 (store sb) w2 = (rt, d, w3)"
              by (cases "WithTx (faults_of E) (startTx E g base branch ?name shas) (store sb) w2")
            have unf: "startSession E g c st =
                (case rt of
                   Some e \<Rightarrow> (Some (Wrap e ''failed to initialize review''), sb\<lparr>store := d, tree := w3\<rparr>)
                 | None \<Rightarrow> startJump E g c ?name shas (sb\<lparr>store := d, tree := w3\<rparr>))"
              using cb Inr ne rbs base rl shas sne tx
              by (simp add: startSession_def Let_def split: option.splits)
            from WithTx_cases[OF tx] show ?thesis
            proof
              assume "rt \<noteq> None \<and> d = store sb"
              then show ?thesis using run unf sbs by auto
            next
              assume "rt = None \<and> (\<exists>y. startTx E g base branch ?name shas (store sb) w2 = (Inr d, y))"
              then obtain y where rtn: "rt = None"
                and stx: "startTx E g base branch ?name shas (store sb) w2 = (Inr d, y)"
                by (elim exE conjE)
              from startTx_Inr[OF stx] sbs obtain rows where
                ses: "t_session d = t_session (store st) @
                  [\<lparr>BaseRef = base, Branch = branch, SessionCreatedAt = now_utc E\<rparr>]"
                and com: "t_commits d = t_commits (store st) @ rows" "map Sha rows = shas"
                  "map Position rows = map int [0..<length shas]"
                and rev: "t_reviewers d = t_reviewers (store st) @ [\<lparr>Name = ?name, CurrentSha = None\<rparr>]"
                  "?name \<notin> Name ` set (t_reviewers (store st))"
                and cmt: "t_comments d = t_comments (store st)"
                by (elim exE conjE) (rule that; simp)
              have sj: "startJump E g c ?name shas (sb\<lparr>store := d, tree := w3\<rparr>) = (res, sa)"
                using run unf rtn by simp
              have fresh: "map (\<lambda>r. if Name r = ?name then r\<lparr>CurrentSha := x\<rparr> else r)
                      (t_reviewers (store st)) = t_reviewers (store st)" for x
              proof (intro map_idI)
                fix r assume "r \<in> set (t_reviewers (store st))"
                then have "Name r \<in> Name ` set (t_reviewers (store st))" by (rule imageI)
                then have "Name r \<noteq> ?name" using rev(2) by metis
                then show "(if Name r = ?name then r\<lparr>CurrentSha := x\<rparr> else r) = r"
                  by (simp only: if_False)
              qed
              from startJump_store[OF sj]
              have "\<exists>cur. t_session (store sa) = t_session d \<and> t_commits (store sa) = t_commits d \<and>
                     t_comments (store sa) = t_comments d \<and>
                     t_reviewers (store sa) = t_reviewers (store st) @ [\<lparr>Name = ?name, CurrentSha = cur\<rparr>]"
              proof
                assume "store sa = store (sb\<lparr>store := d, tree := w3\<rparr>)"
                then show ?thesis using rev(1) by (intro exI[of _ None]) simp
              next
                assume "\<exists>first::commit. store sa = (store (sb\<lparr>store := d, tree := w3\<rparr>))\<lparr>t_reviewers :=
                    map (\<lambda>r. if Name r = ?name then r\<lparr>CurrentSha := Some (Sha first)\<rparr> else r)
                      (t_reviewers (store (sb\<lparr>store := d, tree := w3\<rparr>)))\<rparr>"
                then obtain first :: commit where
                  f: "store sa = (store (sb\<lparr>store := d, tree := w3\<rparr>))\<lparr>t_reviewers :=
                    map (\<lambda>r. if Name r = ?name then r\<lparr>CurrentSha := Some (Sha first)\<rparr> else r)
                      (t_reviewers (store (sb\<lparr>store := d, tree := w3\<rparr>)))\<rparr>"
                  by (elim exE)
                show ?thesis
                  using f rev(1) fresh[of "Some (Sha first)"]
                  by (intro exI[of _ "Some (Sha first)"]) simp
              qed
              then obtain cur where
                fin: "t_session (store sa) = t_session d" "t_commits (store sa) = t_commits d"
                  "t_comments (store sa) = t_comments d"
                  "t_reviewers (store sa) = t_reviewers (store st) @ [\<lparr>Name = ?name, CurrentSha = cur\<rparr>]"
                by (elim exE conjE)
              have "\<exists>base branch shas rows cur w w'.
                  shas \<noteq> [] \<and> RevList E g (base @ ''..HEAD'') w = (Inr shas, w') \<and>
                  t_session (store sa) = t_session (store st) @
                    [\<lparr>BaseRef = base, Branch = branch, SessionCreatedAt = now_utc E\<rparr>] \<and>
                  t_commits (store sa) = t_commits (store st) @ rows \<and>
                  map Sha rows = shas \<and> map Position rows = map int [0..<length shas] \<and>
                  t_reviewers (store sa) = t_reviewers (store st) @ [\<lparr>Name = ?name, CurrentSha = cur\<rparr>] \<and>
                  t_comments (store sa) = t_comments (store st)"
                using sne rl shas ses com cmt fin
                by (intro exI[of _ base] exI[of _ branch] exI[of _ shas] exI[of _ rows] exI[of _ cur]
                    exI[of _ "tree sb"] exI[of _ w2]) simp
              then show ?thesis by (rule disjI2)
            qed
          qed
        qed
      qed
    qed
  qed
qed

text \<open>
  C8. When no session exists, \<open>start\<close> either leaves the store as it was or has inserted
  all of this: one session row; one commit row for each commit that \<open>git rev-list
  --reverse base..HEAD\<close> listed, in that order (oldest first), with the positions
  \<open>0, 1, 2, ...\<close> in that order; and the row of the initiating reviewer (whose cursor the
  move to the first commit may then have set). The three kinds of rows are inserted by
  one transaction: when it fails, at whatever statement, the store is as before, and
  when it succeeds all the rows are there.
\<close>

theorem start_inserts_contiguous_positions:
  "(q_SessionExists (faults_of E) (store st) = Inr 0 \<and> StartCmd_Run E g c st = (res, sa) \<longrightarrow>
      store sa = store st \<or>
      (\<exists>base branch shas rows cur w w'.
         shas \<noteq> [] \<and> RevList E g (base @ ''..HEAD'') w = (Inr shas, w') \<and>
         t_session (store sa) = t_session (store st) @
           [\<lparr>BaseRef = base, Branch = branch, SessionCreatedAt = now_utc E\<rparr>] \<and>
         t_commits (store sa) = t_commits (store st) @ rows \<and>
         map Sha rows = shas \<and> map Position rows = map int [0..<length shas] \<and>
         t_reviewers (store sa) = t_reviewers (store st) @
           [\<lparr>Name = (if start_Name c = [] then Reviewer g else start_Name c), CurrentSha = cur\<rparr>] \<and>
         t_comments (store sa) = t_comments (store st))) \<and>
   (WithTx (faults_of E) (startTx E g tbase tbranch tname tshas) d x = (rt, d', x') \<longrightarrow>
      (rt \<noteq> None \<longrightarrow> d' = d) \<and>
      (rt = None \<longrightarrow>
         t_session d' = t_session d @
           [\<lparr>BaseRef = tbase, Branch = tbranch, SessionCreatedAt = now_utc E\<rparr>] \<and>
         (\<exists>rows. t_commits d' = t_commits d @ rows \<and> map Sha rows = tshas \<and>
                 map Position rows = map int [0..<length tshas]) \<and>
         t_reviewers d' = t_reviewers d @ [\<lparr>Name = tname, CurrentSha = None\<rparr>] \<and>
         t_comments d' = t_comments d))"
proof (intro conjI impI)
  assume h: "q_SessionExists (faults_of E) (store st) = Inr 0 \<and> StartCmd_Run E g c st = (res, sa)"
  then have h0: "q_SessionExists (faults_of E) (store st) = Inr 0"
    and h1: "StartCmd_Run E g c st = (res, sa)" by simp_all
  have "startSession E g c st = (res, sa)" using h1 by (simp add: StartCmd_Run_def h0)
  then show "store sa = store st \<or>
      (\<exists>base branch shas rows cur w w'.
         shas \<noteq> [] \<and> RevList E g (base @ ''..HEAD'') w = (Inr shas, w') \<and>
         t_session (store sa) = t_session (store st) @
           [\<lparr>BaseRef = base, Branch = branch, SessionCreatedAt = now_utc E\<rparr>] \<and>
         t_commits (store sa) = t_commits (store st) @ rows \<and>
         map Sha rows = shas \<and> map Position rows = map int [0..<length shas] \<and>
         t_reviewers (store sa) = t_reviewers (store st) @
           [\<lparr>Name = (if start_Name c = [] then Reviewer g else start_Name c), CurrentSha = cur\<rparr>] \<and>
         t_comments (store sa) = t_comments (store st))"
    by (rule startSession_store)
next
  assume tx: "WithTx (faults_of E) (startTx E g tbase tbranch tname tshas) d x = (rt, d', x')"
  {
    assume "rt \<noteq> None"
    then show "d' = d" using WithTx_cases[OF tx] by auto
  }
  assume "rt = None"
  then obtain y where stx: "startTx E g tbase tbranch tname tshas d x = (Inr d', y)"
    using WithTx_cases[OF tx] by auto
  note r = startTx_Inr[OF stx]
  show "t_session d' = t_session d @
           [\<lparr>BaseRef = tbase, Branch = tbranch, SessionCreatedAt = now_utc E\<rparr>]"
    using r by simp
  show "\<exists>rows. t_commits d' = t_commits d @ rows \<and> map Sha rows = tshas \<and>
                 map Position rows = map int [0..<length tshas]"
    using r by simp
  show "t_reviewers d' = t_reviewers d @ [\<lparr>Name = tname, CurrentSha = None\<rparr>]"
    using r by simp
  show "t_comments d' = t_comments d" using r by simp
qed

subsection \<open>Decimal text and \<open>ParseInt\<close>\<close>

lemma dec_val_simps [simp]: "dec_val n [] = n" "dec_val n (c # cs) = dec_val (n * 10 + digit_val c) cs"
  by (simp_all add: dec_val_def)

lemma dec_val_append: "dec_val n (xs @ ys) = dec_val (dec_val n xs) ys"
  by (simp add: dec_val_def)

lemma dec_val_ge: "n \<le> dec_val n cs"
proof (induction cs arbitrary: n)
  case Nil show ?case by simp
next
  case (Cons c cs)
  have "n \<le> n * 10 + digit_val c" by simp
  also have "\<dots> \<le> dec_val (n * 10 + digit_val c) cs" by (rule Cons.IH)
  finally show ?case by simp
qed

lemma parseUintLoop_ok:
  "\<forall>c\<in>set cs. is_digit c \<Longrightarrow> dec_val n cs \<le> maxUint64 \<Longrightarrow> parseUintLoop n cs = Inr (dec_val n cs)"
proof (induction cs arbitrary: n)
  case Nil show ?case by simp
next
  case (Cons c cs)
  let ?n1 = "n * 10 + digit_val c"
  have le: "?n1 \<le> maxUint64" using dec_val_ge[of ?n1 cs] Cons.prems(2) by simp
  then have lt: "\<not> n \<ge> maxUint64 div 10 + 1" by (simp add: maxUint64_def)
  show ?case using Cons le lt by simp
qed

lemma parseUintLoop_Inr:
  "parseUintLoop n cs = Inr m \<Longrightarrow> (\<forall>c\<in>set cs. is_digit c) \<and> m = dec_val n cs \<and> (n \<le> maxUint64 \<longrightarrow> m \<le> maxUint64)"
  by (induction cs arbitrary: n) (auto split: if_splits)

lemma digits_of_digits: "\<forall>c\<in>set (digits_of n). is_digit c"
proof (induction n rule: digits_of.induct)
  case (1 n)
  show ?case
  proof (cases "n < 10")
    case True
    then show ?thesis by (subst digits_of.simps) (simp add: is_digit_def)
  next
    case False
    have "n mod 10 < 10" by simp
    then have "is_digit (char_of (48 + n mod 10))" by (simp add: is_digit_def)
    with False 1 show ?thesis by (subst digits_of.simps) simp
  qed
qed

lemma dec_val_digits_of: "dec_val 0 (digits_of n) = n"
proof (induction n rule: digits_of.induct)
  case (1 n)
  show ?case
  proof (cases "n < 10")
    case True
    then show ?thesis by (subst digits_of.simps) (simp add: digit_val_def)
  next
    case False
    have "n mod 10 < 10" by simp
    then have "digit_val (char_of (48 + n mod 10)) = n mod 10" by (simp add: digit_val_def)
    with False 1 show ?thesis by (subst digits_of.simps) (simp add: dec_val_append)
  qed
qed


lemma ParseUint_iff:
  "ParseUint s = Inr m \<longleftrightarrow> s \<noteq> [] \<and> list_all is_digit s \<and> m = dec_val 0 s \<and> m \<le> maxUint64"
proof
  assume "ParseUint s = Inr m"
  then have ne: "s \<noteq> []" and l: "parseUintLoop 0 s = Inr m"
    by (auto simp: ParseUint_def split: if_splits)
  from parseUintLoop_Inr[OF l] ne
  show "s \<noteq> [] \<and> list_all is_digit s \<and> m = dec_val 0 s \<and> m \<le> maxUint64"
    by (simp add: list_all_iff)
next
  assume a: "s \<noteq> [] \<and> list_all is_digit s \<and> m = dec_val 0 s \<and> m \<le> maxUint64"
  then have "parseUintLoop 0 s = Inr (dec_val 0 s)"
    by (intro parseUintLoop_ok) (simp_all add: list_all_iff)
  with a show "ParseUint s = Inr m" by (simp add: ParseUint_def)
qed

lemma ParseInt_iff: "ParseInt s = Inr i \<longleftrightarrow> int64_text s = Some i"
proof (cases s)
  case Nil
  then show ?thesis by (simp add: ParseInt_def int64_text_def strip_sign_def)
next
  case (Cons c cs)
  show ?thesis
  proof (cases "ParseUint (strip_sign s)")
    case (Inl e)
    then have "\<not> (strip_sign s \<noteq> [] \<and> list_all is_digit (strip_sign s) \<and> dec_val 0 (strip_sign s) \<le> maxUint64)"
      using ParseUint_iff[of "strip_sign s" "dec_val 0 (strip_sign s)"] by auto
    then have "int64_text s = None"
      by (auto simp: int64_text_def Let_def in_int64_def maxUint64_def)
    moreover have "ParseInt s \<noteq> Inr i"
      using Inl Cons by (cases e) (auto simp: ParseInt_def strip_sign_def Let_def)
    ultimately show ?thesis by simp
  next
    case (Inr un)
    then have u: "strip_sign s \<noteq> []" "list_all is_digit (strip_sign s)" "un = dec_val 0 (strip_sign s)"
      using ParseUint_iff[of "strip_sign s" un] by auto
    show ?thesis
      using Inr Cons u
      by (auto simp: ParseInt_def strip_sign_def Let_def int64_text_def in_int64_def split: if_splits)
  qed
qed

lemma digits_of_ne: "digits_of n \<noteq> []"
  by (subst digits_of.simps) simp

lemma hd_digits_of: "is_digit (hd (digits_of n))"
  using digits_of_digits[of n] digits_of_ne[of n] by (cases "digits_of n") auto

lemma is_digit_not_sign: "is_digit c \<Longrightarrow> c \<noteq> CHR ''+'' \<and> c \<noteq> CHR ''-'' \<and> c \<noteq> CHR '',''"
  by (auto simp: is_digit_def)

lemma int64_text_itoa: "in_int64 i \<Longrightarrow> int64_text (itoa i) = Some i"
proof (cases "i < 0")
  case True
  assume "in_int64 i"
  with True show ?thesis
    using digits_of_digits[of "nat (- i)"] digits_of_ne[of "nat (- i)"]
    by (simp add: itoa_def int64_text_def strip_sign_def dec_val_digits_of list_all_iff)
next
  case False
  assume r: "in_int64 i"
  obtain c cs where d: "digits_of (nat i) = c # cs"
    using digits_of_ne[of "nat i"] by (cases "digits_of (nat i)") auto
  have "is_digit c" using hd_digits_of[of "nat i"] d by simp
  then have c: "c \<noteq> CHR ''+''" "c \<noteq> CHR ''-''" using is_digit_not_sign by auto
  have v: "dec_val 0 (c # cs) = nat i" using dec_val_digits_of[of "nat i"] d by simp
  from False r c d v digits_of_digits[of "nat i"] show ?thesis
    by (simp add: itoa_def int64_text_def strip_sign_def list_all_iff del: dec_val_simps)
qed

lemma itoa_no_comma: "CHR '','' \<notin> set (itoa i)"
  using digits_of_digits is_digit_not_sign by (auto simp: itoa_def)

lemma parseLineRange_pair:
  assumes "CHR '','' \<notin> set a" "int64_text a = Some s" "int64_text b = Some e" "s \<le> e"
  shows "parseLineRange (a @ CHR '','' # b) = Inr (Some s, Some e)"
proof -
  have t: "takeWhile (\<lambda>c. c \<noteq> CHR '','') (a @ CHR '','' # b) = a"
    using assms(1) by (subst takeWhile_append2) auto
  have d: "dropWhile (\<lambda>c. c \<noteq> CHR '','') (a @ CHR '','' # b) = CHR '','' # b"
    using assms(1) by (subst dropWhile_append2) auto
  have pa: "ParseInt a = Inr s" and pb: "ParseInt b = Inr e"
    using assms(2,3) by (simp_all add: ParseInt_iff)
  show ?thesis
    unfolding parseLineRange_def t d using pa pb assms(4) by simp
qed

lemma parseLineRange_single:
  assumes "CHR '','' \<notin> set raw" "int64_text raw = Some n"
  shows "parseLineRange raw = Inr (Some n, Some n)"
proof -
  have "ParseInt raw = Inr n" using assms(2) by (simp add: ParseInt_iff)
  moreover have "raw \<noteq> []" using assms(2) by (auto simp: int64_text_def strip_sign_def)
  ultimately show ?thesis using assms(1) by (simp add: parseLineRange_def)
qed

lemma ParseInt_Inl_iff: "(\<exists>e. ParseInt s = Inl e) \<longleftrightarrow> int64_text s = None"
proof (cases "ParseInt s")
  case (Inl e)
  then have "\<forall>i. int64_text s \<noteq> Some i" using ParseInt_iff[of s] by simp
  with Inl show ?thesis by auto
next
  case (Inr i)
  then show ?thesis using ParseInt_iff[of s i] by simp
qed

lemma parseLineRange_rejects:
  "(\<exists>err. parseLineRange raw = Inl err) \<longleftrightarrow>
     raw \<noteq> [] \<and>
     (if CHR '','' \<in> set raw
      then (case (int64_text (takeWhile (\<lambda>c. c \<noteq> CHR '','') raw),
                  int64_text (tl (dropWhile (\<lambda>c. c \<noteq> CHR '','') raw))) of
              (Some s, Some e) \<Rightarrow> s > e
            | _ \<Rightarrow> True)
      else int64_text raw = None)"
proof -
  let ?a = "takeWhile (\<lambda>c. c \<noteq> CHR '','') raw"
  let ?b = "tl (dropWhile (\<lambda>c. c \<noteq> CHR '','') raw)"
  show ?thesis
  proof (cases "ParseInt ?a")
    case a: (Inl ea)
    then have na: "int64_text ?a = None" using ParseInt_Inl_iff[of ?a] by auto
    show ?thesis
    proof (cases "ParseInt raw")
      case (Inl er)
      then have "int64_text raw = None" using ParseInt_Inl_iff[of raw] by auto
      with a na Inl show ?thesis by (simp add: parseLineRange_def)
    next
      case (Inr n)
      then have "int64_text raw = Some n" by (simp add: ParseInt_iff)
      with a na Inr show ?thesis by (simp add: parseLineRange_def)
    qed
  next
    case a: (Inr s)
    then have sa: "int64_text ?a = Some s" by (simp add: ParseInt_iff)
    show ?thesis
    proof (cases "ParseInt ?b")
      case b: (Inl eb)
      then have nb: "int64_text ?b = None" using ParseInt_Inl_iff[of ?b] by auto
      show ?thesis
      proof (cases "ParseInt raw")
        case (Inl er)
        then have "int64_text raw = None" using ParseInt_Inl_iff[of raw] by auto
        with a sa b nb Inl show ?thesis by (simp add: parseLineRange_def)
      next
        case (Inr n)
        then have "int64_text raw = Some n" by (simp add: ParseInt_iff)
        with a sa b nb Inr show ?thesis by (simp add: parseLineRange_def)
      qed
    next
      case b: (Inr e)
      then have sb: "int64_text ?b = Some e" by (simp add: ParseInt_iff)
      show ?thesis
      proof (cases "ParseInt raw")
        case (Inl er)
        then have "int64_text raw = None" using ParseInt_Inl_iff[of raw] by auto
        with a sa b sb Inl show ?thesis by (simp add: parseLineRange_def)
      next
        case (Inr n)
        then have "int64_text raw = Some n" by (simp add: ParseInt_iff)
        with a sa b sb Inr show ?thesis by (simp add: parseLineRange_def)
      qed
    qed
  qed
qed

lemma AddCmd_Run_lines:
  assumes "AddCmd_Run E g c st = (None, st')" "add_ReplyTo c = []"
  shows "\<exists>row. t_comments (store st') = t_comments (store st) @ [row] \<and>
               parseLineRange (add_Line c) = Inr (StartLine row, EndLine row)"
  using assms
  by (auto simp: AddCmd_Run_def addParams_def q_InsertComment_def out_Ok_def Let_def
           split: option.splits sum.splits if_splits prod.splits)

subsection \<open>Claim C9: what \<open>parseLineRange\<close> accepts\<close>

text \<open>
  C9, as amended. Every value of the signed 64-bit range, zero and the negative ones
  included, has a decimal text without a comma. A text \<open>a,b\<close> whose parts denote such
  values \<open>s \<le> e\<close> is accepted with start \<open>s\<close> and end \<open>e\<close>, and a single text that denotes
  \<open>n\<close> is accepted with start and end \<open>n\<close>. The rejected inputs are exactly the non-empty
  ones in which a part is not a decimal numeral of the signed 64-bit range (text that
  is not numeric, or a numeral beyond that range), and the ranges whose start exceeds
  the end. A comment that is not a reply is stored with the start and end that the
  parser gave, with no further test, so they need not be positive.
\<close>

theorem parseLineRange_accepts_int64:
  "(in_int64 i \<longrightarrow> int64_text (itoa i) = Some i \<and> CHR '','' \<notin> set (itoa i)) \<and>
   (CHR '','' \<notin> set a \<and> int64_text a = Some s \<and> int64_text b = Some e \<and> s \<le> e \<longrightarrow>
      parseLineRange (a @ CHR '','' # b) = Inr (Some s, Some e)) \<and>
   (CHR '','' \<notin> set single \<and> int64_text single = Some n \<longrightarrow>
      parseLineRange single = Inr (Some n, Some n)) \<and>
   ((\<exists>err. parseLineRange raw = Inl err) \<longleftrightarrow>
      raw \<noteq> [] \<and>
      (if CHR '','' \<in> set raw
       then (case (int64_text (takeWhile (\<lambda>c. c \<noteq> CHR '','') raw),
                   int64_text (tl (dropWhile (\<lambda>c. c \<noteq> CHR '','') raw))) of
               (Some s', Some e') \<Rightarrow> s' > e'
             | _ \<Rightarrow> True)
       else int64_text raw = None)) \<and>
   (AddCmd_Run E g c st = (None, st') \<and> add_ReplyTo c = [] \<longrightarrow>
      (\<exists>row. t_comments (store st') = t_comments (store st) @ [row] \<and>
             parseLineRange (add_Line c) = Inr (StartLine row, EndLine row)))"
proof -
  have 1: "in_int64 i \<longrightarrow> int64_text (itoa i) = Some i \<and> CHR '','' \<notin> set (itoa i)"
    using int64_text_itoa[of i] itoa_no_comma[of i] by simp
  have 2: "CHR '','' \<notin> set a \<and> int64_text a = Some s \<and> int64_text b = Some e \<and> s \<le> e \<longrightarrow>
      parseLineRange (a @ CHR '','' # b) = Inr (Some s, Some e)"
    using parseLineRange_pair[of a s b e] by simp
  have 3: "CHR '','' \<notin> set single \<and> int64_text single = Some n \<longrightarrow>
      parseLineRange single = Inr (Some n, Some n)"
    using parseLineRange_single[of single n] by simp
  have 5: "AddCmd_Run E g c st = (None, st') \<and> add_ReplyTo c = [] \<longrightarrow>
      (\<exists>row. t_comments (store st') = t_comments (store st) @ [row] \<and>
             parseLineRange (add_Line c) = Inr (StartLine row, EndLine row))"
    using AddCmd_Run_lines[of E g c st st'] by simp
  show ?thesis
    by (intro conjI) (rule 1, rule 2, rule 3, rule parseLineRange_rejects, rule 5)
qed

lemma parseLineRange_neg: "parseLineRange ''-3,0'' = Inr (Some (- 3), Some 0)"
  by (simp add: parseLineRange_def ParseInt_def ParseUint_def is_digit_def digit_val_def
      maxUint64_def)

lemma AddCmd_Run_addNeg: "fst (AddCmd_Run E0 g0 addNeg st0) = None"
  by (simp add: AddCmd_Run_def addParams_def addNeg_def E0_def g0_def st0_def db0_def
      requireActive_def q_SessionExists_def q_GetReviewer_def q_InsertComment_def
      parseLineRange_neg commit1_def commit2_def out_Ok_def Let_def)

theorem parseLineRange_accepts_int64_witness:
  "int64_text (itoa (- 3)) = Some (- 3) \<and>
   parseLineRange ''-3,0'' = Inr (Some (- 3), Some 0) \<and>
   parseLineRange ''0'' = Inr (Some 0, Some 0) \<and>
   (\<exists>err. parseLineRange ''5,2'' = Inl err) \<and>
   (\<exists>row. t_comments (store (snd (AddCmd_Run E0 g0 addNeg st0))) = t_comments (store st0) @ [row] \<and>
          StartLine row = Some (- 3) \<and> EndLine row = Some 0)"
proof -
  note T = parseLineRange_accepts_int64[where i = "- 3" and a = "''-3''" and s = "- 3"
      and b = "''0''" and e = 0 and single = "''0''" and n = 0 and raw = "''5,2''"
      and E = E0 and g = g0 and c = addNeg and st = st0
      and st' = "snd (AddCmd_Run E0 g0 addNeg st0)"]
  have r: "AddCmd_Run E0 g0 addNeg st0 = (None, snd (AddCmd_Run E0 g0 addNeg st0))"
    using AddCmd_Run_addNeg by (cases "AddCmd_Run E0 g0 addNeg st0") simp
  have a: "in_int64 (- 3)" by (simp add: in_int64_def)
  have dt: "int64_text ''-3'' = Some (- 3)" "int64_text ''0'' = Some 0"
    "int64_text ''5'' = Some 5" "int64_text ''2'' = Some 2"
    by (simp_all add: int64_text_def strip_sign_def in_int64_def is_digit_def digit_val_def
        dec_val_def)
  have rej: "\<exists>err. parseLineRange ''5,2'' = Inl err"
    using T dt by simp
  have pair: "parseLineRange ''-3,0'' = Inr (Some (- 3), Some 0)"
    using T dt by simp
  have single: "parseLineRange ''0'' = Inr (Some 0, Some 0)"
    using T dt by simp
  from T r obtain row where
    row: "t_comments (store (snd (AddCmd_Run E0 g0 addNeg st0))) = t_comments (store st0) @ [row]"
      "parseLineRange (add_Line addNeg) = Inr (StartLine row, EndLine row)"
    by (auto simp: addNeg_def)
  from row(2) pair have "StartLine row = Some (- 3) \<and> EndLine row = Some 0"
    by (simp add: addNeg_def)
  with row(1) a T rej pair single show ?thesis by blast
qed

text \<open>
  C9 as stated fails: \<open>9223372036854775808\<close> is numeric text and not a range, and it is
  rejected, because it is beyond the signed 64-bit range.
\<close>

theorem parseLineRange_rejects_numeric_text:
  "list_all is_digit ''9223372036854775808'' \<and>
   CHR '','' \<notin> set ''9223372036854775808'' \<and>
   parseLineRange ''9223372036854775808'' = Inl (New ''invalid line number'')"
  by (simp add: parseLineRange_def ParseInt_def ParseUint_def is_digit_def digit_val_def
      maxUint64_def)

subsection \<open>Claim C5: resolving and unresolving\<close>

lemma ResolveCmd_Run_fails:
  assumes "\<exists>e. requireActive E st = Some e \<or>
             q_FindCommentByPrefix (faults_of E) cid (store st) = Inl e \<or>
             (\<exists>c. q_FindCommentByPrefix (faults_of E) cid (store st) = Inr c \<and>
                  (ParentID c \<noteq> None \<or> ResolvedAt c \<noteq> None))"
  shows "\<exists>e. ResolveCmd_Run E g cid nm st = (Some e, st)"
  using assms
  by (auto simp: ResolveCmd_Run_def Let_def split: option.splits sum.splits)

lemma UnresolveCmd_Run_fails:
  assumes "\<exists>e. requireActive E st = Some e \<or>
             q_FindCommentByPrefix (faults_of E) cid (store st) = Inl e \<or>
             (\<exists>c. q_FindCommentByPrefix (faults_of E) cid (store st) = Inr c \<and>
                  (ParentID c \<noteq> None \<or> ResolvedAt c = None))"
  shows "\<exists>e. UnresolveCmd_Run E g cid st = (Some e, st)"
  using assms
  by (auto simp: UnresolveCmd_Run_def Let_def split: option.splits sum.splits)

lemma ResolveCmd_Run_nonroot:
  assumes "requireActive E st = None"
    "q_FindCommentByPrefix (faults_of E) cid (store st) = Inr c" "ParentID c \<noteq> None"
  shows "ResolveCmd_Run E g cid nm st = (Some (New ''only root comments can be resolved''), st)"
  using assms by (auto simp: ResolveCmd_Run_def Let_def)

lemma ResolveCmd_Run_resolved:
  assumes "requireActive E st = None"
    "q_FindCommentByPrefix (faults_of E) cid (store st) = Inr c" "ParentID c = None"
    "ResolvedAt c \<noteq> None"
  shows "ResolveCmd_Run E g cid nm st = (Some (New ''thread is already resolved''), st)"
  using assms by (auto simp: ResolveCmd_Run_def Let_def)

lemma UnresolveCmd_Run_unresolved:
  assumes "requireActive E st = None"
    "q_FindCommentByPrefix (faults_of E) cid (store st) = Inr c" "ParentID c = None"
    "ResolvedAt c = None"
  shows "UnresolveCmd_Run E g cid st = (Some (New ''thread is not resolved''), st)"
  using assms by (auto simp: UnresolveCmd_Run_def Let_def)

lemma UnresolveCmd_Run_ok:
  assumes "UnresolveCmd_Run E g cid st = (None, st')"
  shows "\<exists>c. q_FindCommentByPrefix (faults_of E) cid (store st) = Inr c \<and>
             ParentID c = None \<and> ResolvedAt c \<noteq> None \<and>
             t_comments (store st') =
               map (\<lambda>x. if ID x = ID c then x\<lparr>ResolvedAt := None, ResolvedBy := None\<rparr> else x)
                 (t_comments (store st))"
  using assms
  by (auto simp: UnresolveCmd_Run_def q_UnresolveComment_def out_Ok_def Let_def
           split: option.splits sum.splits if_splits)

text \<open>Evaluating the example: the prefixes \<open>aa\<close>, \<open>bb\<close> and \<open>cc\<close> find \<open>root1\<close>, \<open>root2\<close> and
  \<open>reply1\<close>.\<close>

lemmas fixture_defs =
  E0_def g0_def st0_def db0_def commit1_def commit2_def st1_def db1_def
  root1_def root2_def reply1_def reply2_def reply3_def

lemmas like_defs = like_prefix_def ascii_lower_def

lemma find_in_db1:
  "q_FindCommentByPrefix (faults_of E0) ''aa'' (store st1) = Inr root1"
  "q_FindCommentByPrefix (faults_of E0) ''bb'' (store st1) = Inr root2"
  "q_FindCommentByPrefix (faults_of E0) ''cc'' (store st1) = Inr reply1"
  by (simp_all add: q_FindCommentByPrefix_def fixture_defs like_defs)

lemma active_st1: "requireActive E0 st1 = None"
  by (simp add: requireActive_None_iff fixture_defs)

text \<open>
  C5. When the prefix finds a reply, \<open>resolve\<close> returns an error and changes nothing (with
  an active session, "only root comments can be resolved"); when it finds a root that
  is resolved, \<open>resolve\<close> returns an error ("thread is already resolved"); when it finds
  a root that is not resolved, \<open>unresolve\<close> returns an error ("thread is not resolved")
  and changes nothing; and when \<open>unresolve\<close> succeeds, the resolution time and the
  resolver of the comment found are both null afterwards, and no other row changes.
\<close>

theorem resolve_unresolve_rejections:
  "(q_FindCommentByPrefix (faults_of E) cidA (store st) = Inr cA \<and> ParentID cA \<noteq> None \<longrightarrow>
      (\<exists>e. ResolveCmd_Run E g cidA nm st = (Some e, st)) \<and>
      (requireActive E st = None \<longrightarrow>
         ResolveCmd_Run E g cidA nm st = (Some (New ''only root comments can be resolved''), st))) \<and>
   (q_FindCommentByPrefix (faults_of E) cidB (store st) = Inr cB \<and> ParentID cB = None \<and>
      ResolvedAt cB \<noteq> None \<longrightarrow>
      (\<exists>e. ResolveCmd_Run E g cidB nm st = (Some e, st)) \<and>
      (requireActive E st = None \<longrightarrow>
         ResolveCmd_Run E g cidB nm st = (Some (New ''thread is already resolved''), st))) \<and>
   (q_FindCommentByPrefix (faults_of E) cidC (store st) = Inr cC \<and> ParentID cC = None \<and>
      ResolvedAt cC = None \<longrightarrow>
      (\<exists>e. UnresolveCmd_Run E g cidC st = (Some e, st)) \<and>
      (requireActive E st = None \<longrightarrow>
         UnresolveCmd_Run E g cidC st = (Some (New ''thread is not resolved''), st))) \<and>
   (UnresolveCmd_Run E g cidD st = (None, st') \<longrightarrow>
      (\<exists>c. q_FindCommentByPrefix (faults_of E) cidD (store st) = Inr c \<and>
           ParentID c = None \<and> ResolvedAt c \<noteq> None \<and>
           t_comments (store st') =
             map (\<lambda>x. if ID x = ID c then x\<lparr>ResolvedAt := None, ResolvedBy := None\<rparr> else x)
               (t_comments (store st))))"
proof (intro conjI impI)
  assume "q_FindCommentByPrefix (faults_of E) cidA (store st) = Inr cA \<and> ParentID cA \<noteq> None"
  then show "\<exists>e. ResolveCmd_Run E g cidA nm st = (Some e, st)"
    by (intro ResolveCmd_Run_fails) auto
next
  assume "q_FindCommentByPrefix (faults_of E) cidA (store st) = Inr cA \<and> ParentID cA \<noteq> None"
    and "requireActive E st = None"
  then show "ResolveCmd_Run E g cidA nm st = (Some (New ''only root comments can be resolved''), st)"
    by (intro ResolveCmd_Run_nonroot[of E st cidA cA]) auto
next
  assume "q_FindCommentByPrefix (faults_of E) cidB (store st) = Inr cB \<and> ParentID cB = None \<and>
      ResolvedAt cB \<noteq> None"
  then show "\<exists>e. ResolveCmd_Run E g cidB nm st = (Some e, st)"
    by (intro ResolveCmd_Run_fails) auto
next
  assume "q_FindCommentByPrefix (faults_of E) cidB (store st) = Inr cB \<and> ParentID cB = None \<and>
      ResolvedAt cB \<noteq> None" and "requireActive E st = None"
  then show "ResolveCmd_Run E g cidB nm st = (Some (New ''thread is already resolved''), st)"
    by (intro ResolveCmd_Run_resolved[of E st cidB cB]) auto
next
  assume "q_FindCommentByPrefix (faults_of E) cidC (store st) = Inr cC \<and> ParentID cC = None \<and>
      ResolvedAt cC = None"
  then show "\<exists>e. UnresolveCmd_Run E g cidC st = (Some e, st)"
    by (intro UnresolveCmd_Run_fails) auto
next
  assume "q_FindCommentByPrefix (faults_of E) cidC (store st) = Inr cC \<and> ParentID cC = None \<and>
      ResolvedAt cC = None" and "requireActive E st = None"
  then show "UnresolveCmd_Run E g cidC st = (Some (New ''thread is not resolved''), st)"
    by (intro UnresolveCmd_Run_unresolved[of E st cidC cC]) auto
next
  assume "UnresolveCmd_Run E g cidD st = (None, st')"
  then show "\<exists>c. q_FindCommentByPrefix (faults_of E) cidD (store st) = Inr c \<and>
           ParentID c = None \<and> ResolvedAt c \<noteq> None \<and>
           t_comments (store st') =
             map (\<lambda>x. if ID x = ID c then x\<lparr>ResolvedAt := None, ResolvedBy := None\<rparr> else x)
               (t_comments (store st))"
    by (rule UnresolveCmd_Run_ok)
qed

lemma UnresolveCmd_Run_st1: "fst (UnresolveCmd_Run E0 g0 ''aa'' st1) = None"
  using find_in_db1(1) active_st1
  by (simp add: UnresolveCmd_Run_def q_UnresolveComment_def root1_def E0_def)

theorem resolve_unresolve_rejections_witness:
  "ResolveCmd_Run E0 g0 ''cc'' ''bob'' st1 = (Some (New ''only root comments can be resolved''), st1) \<and>
   ResolveCmd_Run E0 g0 ''aa'' ''bob'' st1 = (Some (New ''thread is already resolved''), st1) \<and>
   UnresolveCmd_Run E0 g0 ''bb'' st1 = (Some (New ''thread is not resolved''), st1) \<and>
   t_comments (store (snd (UnresolveCmd_Run E0 g0 ''aa'' st1))) =
     [root1\<lparr>ResolvedAt := None, ResolvedBy := None\<rparr>, root2, reply1, reply2, reply3]"
proof -
  note T = resolve_unresolve_rejections[where E = E0 and g = g0 and st = st1 and nm = "''bob''"
      and cidA = "''cc''" and cA = reply1 and cidB = "''aa''" and cB = root1
      and cidC = "''bb''" and cC = root2 and cidD = "''aa''"
      and st' = "snd (UnresolveCmd_Run E0 g0 ''aa'' st1)"]
  have r: "UnresolveCmd_Run E0 g0 ''aa'' st1 = (None, snd (UnresolveCmd_Run E0 g0 ''aa'' st1))"
    using UnresolveCmd_Run_st1 by (cases "UnresolveCmd_Run E0 g0 ''aa'' st1") simp
  have 1: "ResolveCmd_Run E0 g0 ''cc'' ''bob'' st1
             = (Some (New ''only root comments can be resolved''), st1)"
    using T find_in_db1 active_st1 by (simp add: reply1_def)
  have 2: "ResolveCmd_Run E0 g0 ''aa'' ''bob'' st1 = (Some (New ''thread is already resolved''), st1)"
    using T find_in_db1 active_st1 by (simp add: root1_def)
  have 3: "UnresolveCmd_Run E0 g0 ''bb'' st1 = (Some (New ''thread is not resolved''), st1)"
    using T find_in_db1 active_st1 by (simp add: root2_def)
  from T r find_in_db1(1)
  have "t_comments (store (snd (UnresolveCmd_Run E0 g0 ''aa'' st1))) =
          map (\<lambda>x. if ID x = ID root1 then x\<lparr>ResolvedAt := None, ResolvedBy := None\<rparr> else x)
            (t_comments (store st1))"
    by auto
  then have 4: "t_comments (store (snd (UnresolveCmd_Run E0 g0 ''aa'' st1))) =
     [root1\<lparr>ResolvedAt := None, ResolvedBy := None\<rparr>, root2, reply1, reply2, reply3]"
    by (simp add: fixture_defs)
  from 1 2 3 4 show ?thesis by simp
qed

subsection \<open>Claim C6: replies\<close>

lemma AddCmd_reply_notfound:
  assumes "add_ReplyTo c \<noteq> []" "requireActive E st = None"
    "\<forall>x \<in> set (t_comments (store st)). \<not> like_prefix (add_ReplyTo c) (ID x)"
  shows "AddCmd_Run E g c st = (Some (New ''comment not found''), st)"
proof -
  have "find (\<lambda>x. like_prefix (add_ReplyTo c) (ID x)) (t_comments (store st)) = None"
    using assms(3) by (simp add: find_None_iff)
  then have "\<exists>e. q_FindCommentByPrefix (faults_of E) (add_ReplyTo c) (store st) = Inl e"
    by (simp add: q_FindCommentByPrefix_def)
  then show ?thesis using assms(1,2)
    by (auto simp: AddCmd_Run_def addParams_def Let_def)
qed

lemma AddCmd_reply_ok:
  assumes "add_ReplyTo c \<noteq> []" "AddCmd_Run E g c st = (None, st')"
  shows "\<exists>parent row. q_FindCommentByPrefix (faults_of E) (add_ReplyTo c) (store st) = Inr parent \<and>
           t_comments (store st') = t_comments (store st) @ [row] \<and>
           ID row = new_id E \<and> ParentID row = Some (ID parent) \<and> Commit row = Commit parent \<and>
           File row = File parent \<and> StartLine row = StartLine parent \<and>
           EndLine row = EndLine parent \<and> Body row = add_Message c"
  using assms
  by (auto simp: AddCmd_Run_def addParams_def q_InsertComment_def out_Ok_def Let_def
           split: option.splits sum.splits if_splits)

lemma AddCmd_reply_cursor:
  assumes "add_ReplyTo c \<noteq> []"
  shows "fst (AddCmd_Run E g c (st\<lparr>store := (store st)\<lparr>t_reviewers := rs\<rparr>\<rparr>)) = fst (AddCmd_Run E g c st) \<and>
         t_comments (store (snd (AddCmd_Run E g c (st\<lparr>store := (store st)\<lparr>t_reviewers := rs\<rparr>\<rparr>))))
           = t_comments (store (snd (AddCmd_Run E g c st)))"
  using assms
  by (auto simp: AddCmd_Run_def addParams_def q_InsertComment_def out_Ok_def Let_def requireActive_def
       q_SessionExists_def q_FindCommentByPrefix_def
           split: option.splits sum.splits if_splits)

text \<open>
  C6. For a reply (\<open>-r\<close> given): when the session is active and no comment matches the
  prefix, \<open>add\<close> fails with "comment not found" and changes nothing; when \<open>add\<close> succeeds,
  the prefix found a parent and the one new row has that parent and its commit, file,
  start line and end line; and neither the outcome nor the comments stored depend on
  the reviewers table, where the cursors are.
\<close>

theorem AddCmd_reply_inherits:
  "add_ReplyTo c \<noteq> [] \<longrightarrow>
     (requireActive E st = None \<and>
      (\<forall>x \<in> set (t_comments (store st)). \<not> like_prefix (add_ReplyTo c) (ID x)) \<longrightarrow>
        AddCmd_Run E g c st = (Some (New ''comment not found''), st)) \<and>
     (AddCmd_Run E g c sb = (None, st') \<longrightarrow>
        (\<exists>parent row.
           q_FindCommentByPrefix (faults_of E) (add_ReplyTo c) (store sb) = Inr parent \<and>
           t_comments (store st') = t_comments (store sb) @ [row] \<and>
           ID row = new_id E \<and> ParentID row = Some (ID parent) \<and> Commit row = Commit parent \<and>
           File row = File parent \<and> StartLine row = StartLine parent \<and>
           EndLine row = EndLine parent \<and> Body row = add_Message c)) \<and>
     (fst (AddCmd_Run E g c (sb\<lparr>store := (store sb)\<lparr>t_reviewers := rs\<rparr>\<rparr>))
        = fst (AddCmd_Run E g c sb) \<and>
      t_comments (store (snd (AddCmd_Run E g c (sb\<lparr>store := (store sb)\<lparr>t_reviewers := rs\<rparr>\<rparr>))))
        = t_comments (store (snd (AddCmd_Run E g c sb))))"
  using AddCmd_reply_notfound[of c E st g] AddCmd_reply_ok[of c E g sb st']
    AddCmd_reply_cursor[where c = c and E = E and g = g and st = sb and rs = rs]
  by blast

lemma AddCmd_Run_addReply: "fst (AddCmd_Run E0 g0 addReply st1) = None"
  using find_in_db1(1) active_st1
  by (simp add: AddCmd_Run_def addParams_def addReply_def q_InsertComment_def Let_def
      fixture_defs)

lemma no_zz_in_db1: "\<forall>x \<in> set (t_comments (store st1)). \<not> like_prefix ''zz'' (ID x)"
  by (simp add: fixture_defs like_defs)

theorem AddCmd_reply_inherits_witness:
  "AddCmd_Run E0 g0 (addReply\<lparr>add_ReplyTo := ''zz''\<rparr>) st1 = (Some (New ''comment not found''), st1) \<and>
   (\<exists>row. t_comments (store (snd (AddCmd_Run E0 g0 addReply st1))) = t_comments (store st1) @ [row] \<and>
      ParentID row = Some ''aa01'' \<and> Commit row = ''ab12'' \<and> File row = Some ''a.go'' \<and>
      StartLine row = Some 3 \<and> EndLine row = Some 5) \<and>
   CurrentSha (hd (t_reviewers (store st1))) = Some ''ab34''"
proof -
  note N = AddCmd_reply_inherits[where c = "addReply\<lparr>add_ReplyTo := ''zz''\<rparr>" and E = E0
      and g = g0 and st = st1 and sb = st1]
  note T = AddCmd_reply_inherits[where c = addReply and E = E0 and g = g0 and st = st1
      and sb = st1 and st' = "snd (AddCmd_Run E0 g0 addReply st1)"]
  have r: "AddCmd_Run E0 g0 addReply st1 = (None, snd (AddCmd_Run E0 g0 addReply st1))"
    using AddCmd_Run_addReply by (cases "AddCmd_Run E0 g0 addReply st1") simp
  have 1: "AddCmd_Run E0 g0 (addReply\<lparr>add_ReplyTo := ''zz''\<rparr>) st1
             = (Some (New ''comment not found''), st1)"
    using N active_st1 no_zz_in_db1 by simp
  have ne: "add_ReplyTo addReply \<noteq> []" "add_ReplyTo addReply = ''aa''"
    by (simp_all add: addReply_def)
  from T r ne find_in_db1(1)
  have 2: "\<exists>row. t_comments (store (snd (AddCmd_Run E0 g0 addReply st1))) = t_comments (store st1) @ [row] \<and>
      ParentID row = Some (ID root1) \<and> Commit row = Commit root1 \<and> File row = File root1 \<and>
      StartLine row = StartLine root1 \<and> EndLine row = EndLine root1"
    by auto
  have 3: "CurrentSha (hd (t_reviewers (store st1))) = Some ''ab34''"
    by (simp add: fixture_defs)
  from 1 2 3 show ?thesis by (simp add: root1_def)
qed

subsection \<open>Claim C1: the example\<close>






subsection \<open>Claims C2 and C10: the examples\<close>


lemma eval_ab: "filterComments [root1, root2, reply1, reply2, reply3] [commit1]
    (buildIDMap [root1, root2, reply1, reply2, reply3]) ''ab'' False [] [] = Some [root1, reply1, reply2, reply3]"
  by (simp add: filterComments_def matchCommit_def HasPrefix_def rootIDs_def rootPasses_def buildIDMap_def
     findRoot.simps fixture_defs)




theorem filterComments_first_match_witness:
  "HasPrefix (Sha commit1) ''ab'' \<and> HasPrefix (Sha commit2) ''ab'' \<and>
   matchCommit [commit1, commit2] ''ab'' = ''ab12'' \<and>
   filterComments [root1, root2, reply1, reply2, reply3] [commit1, commit2]
     (buildIDMap [root1, root2, reply1, reply2, reply3]) ''ab'' False [] []
     = Some [root1, reply1, reply2, reply3] \<and>
   Commit root2 = Sha commit2 \<and>
   filterComments [root1, root2, reply1, reply2, reply3] [commit1, commit2]
     (buildIDMap [root1, root2, reply1, reply2, reply3]) ''zz'' False [] [] = Some []"
proof -
  let ?cs = "[root1, root2, reply1, reply2, reply3]"
  note T = filterComments_first_match[where commit = "''ab''" and commits = "[]" and pre = "[]"
      and m = commit1 and post = "[commit2]" and cs = ?cs and idMap = "buildIDMap ?cs"
      and unresolved = False and creator = "[]" and path = "[]"]
  note Z = filterComments_first_match[where commit = "''zz''" and commits = "[commit1, commit2]"
      and pre = "[]" and m = commit1 and post = "[]" and cs = ?cs and idMap = "buildIDMap ?cs"
      and unresolved = False and creator = "[]" and path = "[]"]
  have h: "HasPrefix (Sha commit1) ''ab''" "HasPrefix (Sha commit2) ''ab''"
    "\<forall>cm \<in> set [commit1, commit2]. \<not> HasPrefix (Sha cm) ''zz''"
    "Commit root2 = Sha commit2" "Sha commit1 = ''ab12''"
    by (simp_all add: HasPrefix_def commit1_def commit2_def root2_def)
  have 1: "matchCommit [commit1, commit2] ''ab'' = ''ab12''"
    using T h by simp
  have 2: "filterComments ?cs [commit1, commit2] (buildIDMap ?cs) ''ab'' False [] []
     = Some [root1, reply1, reply2, reply3]"
    using T h eval_ab by simp
  have 3: "filterComments ?cs [commit1, commit2] (buildIDMap ?cs) ''zz'' False [] [] = Some []"
    using Z h by simp
  from h 1 2 3 show ?thesis by simp
qed

subsection \<open>Claims C3, C4 and C7: the examples\<close>

lemmas nav_defs =
  jumpTo_def parentRefOf_def q_GetSession_def q_GetCommitByPosition_def wrap64_def
  Checkout_def ReadTreeReset_def RunSilent_def q_UpdateReviewerCurrent_def logExec_def failExec_def

lemma parentRef_commit2: "parentRefOf (faults_of E0) commit2 (store st0) = Inr ''ab12''"
  by (simp add: nav_defs fixture_defs)



lemma jumpTo_E0_ok: "fst (jumpTo E0 g0 [] commit2 st0) = None"
  by (simp add: nav_defs fixture_defs)

lemma parentRef_fail:
  "parentRefOf (faults_of (E0\<lparr>exec := failExec bad\<rparr>)) commit2 (store st0) = Inr ''ab12''"
  using parentRef_commit2 by simp

theorem cursor_moves_after_both_steps_witness:
  "fst (jumpTo E0 g0 [] commit2 st0) = None \<and>
   t_reviewers (store (snd (jumpTo E0 g0 [] commit2 st0))) = [\<lparr>Name = [], CurrentSha = Some ''ab34''\<rparr>] \<and>
   fst (jumpTo (E0\<lparr>exec := failExec ''checkout''\<rparr>) g0 [] commit2 st0) \<noteq> None \<and>
   store (snd (jumpTo (E0\<lparr>exec := failExec ''checkout''\<rparr>) g0 [] commit2 st0)) = store st0 \<and>
   fst (jumpTo (E0\<lparr>exec := failExec ''read-tree''\<rparr>) g0 [] commit2 st0) \<noteq> None \<and>
   store (snd (jumpTo (E0\<lparr>exec := failExec ''read-tree''\<rparr>) g0 [] commit2 st0)) = store st0 \<and>
   CurrentSha (hd (t_reviewers (store st0))) = Some ''ab12''"
proof -
  let ?sa = "snd (jumpTo E0 g0 [] commit2 st0)"
  let ?Ec = "E0\<lparr>exec := failExec ''checkout''\<rparr>"
  let ?Er = "E0\<lparr>exec := failExec ''read-tree''\<rparr>"
  note A = cursor_moves_after_both_steps[where E = E0 and g = g0 and n = "[]" and target = commit2
      and st = st0 and sa = ?sa, THEN conjunct1]
  have ra: "jumpTo E0 g0 [] commit2 st0 = (None, ?sa)"
    using jumpTo_E0_ok by (cases "jumpTo E0 g0 [] commit2 st0") simp
  from A[rule_format, OF ra] have "store ?sa = (store st0)\<lparr>t_reviewers :=
           map (\<lambda>r. if Name r = [] then r\<lparr>CurrentSha := Some (Sha commit2)\<rparr> else r)
             (t_reviewers (store st0))\<rparr>"
    by (elim exE conjE)
  then have 1: "t_reviewers (store ?sa) = [\<lparr>Name = [], CurrentSha = Some ''ab34''\<rparr>]"
    by (simp add: fixture_defs)
  note C = cursor_moves_after_both_steps[where E = ?Ec and g = g0 and n = "[]" and target = commit2
      and st = st0 and ref = "''ab12''"
      and ec = "Wrap (GitFailed [''checkout'', ''ab12'', ''--quiet'']) ''git command failed''"
      and wc = "[[''checkout'', ''ab12'', ''--quiet'']]",
      THEN conjunct2, THEN conjunct2, THEN conjunct1]
  have c: "Checkout ?Ec g0 ''ab12'' (tree st0) =
      (Some (Wrap (GitFailed [''checkout'', ''ab12'', ''--quiet'']) ''git command failed''),
       [[''checkout'', ''ab12'', ''--quiet'']])"
    by (simp add: Checkout_def RunSilent_def failExec_def st0_def)
  have 2: "fst (jumpTo ?Ec g0 [] commit2 st0) \<noteq> None \<and> store (snd (jumpTo ?Ec g0 [] commit2 st0)) = store st0"
    using C parentRef_fail c by simp
  note R = cursor_moves_after_both_steps[where E = ?Er and g = g0 and n = "[]" and target = commit2
      and st = st0 and ref = "''ab12''" and wc = "[[''checkout'', ''ab12'', ''--quiet'']]"
      and er = "Wrap (GitFailed [''read-tree'', ''-u'', ''--reset'', ''ab34'']) ''git command failed''"
      and wd = "[[''checkout'', ''ab12'', ''--quiet''], [''read-tree'', ''-u'', ''--reset'', ''ab34'']]",
      THEN conjunct2, THEN conjunct2, THEN conjunct2, THEN conjunct1]
  have r: "Checkout ?Er g0 ''ab12'' (tree st0) = (None, [[''checkout'', ''ab12'', ''--quiet'']])"
    "ReadTreeReset ?Er g0 (Sha commit2) [[''checkout'', ''ab12'', ''--quiet'']] =
      (Some (Wrap (GitFailed [''read-tree'', ''-u'', ''--reset'', ''ab34'']) ''git command failed''),
       [[''checkout'', ''ab12'', ''--quiet''], [''read-tree'', ''-u'', ''--reset'', ''ab34'']])"
    by (simp_all add: Checkout_def ReadTreeReset_def RunSilent_def failExec_def st0_def commit2_def)
  have 3: "fst (jumpTo ?Er g0 [] commit2 st0) \<noteq> None \<and> store (snd (jumpTo ?Er g0 [] commit2 st0)) = store st0"
    using R parentRef_fail r by simp
  have 4: "CurrentSha (hd (t_reviewers (store st0))) = Some ''ab12''"
    by (simp add: fixture_defs)
  from jumpTo_E0_ok 1 2 3 4 show ?thesis by simp
qed

lemma list_commits_db: "q_ListCommits (faults_of E0) (store st1) = Inr [commit1, commit2]"
  "q_ListCommits (faults_of E0) (store st0) = Inr [commit1, commit2]"
  "q_ListCommits (faults_of E0) (store stNew) = Inr [commit1, commit2]"
  by (simp_all add: q_ListCommits_def fixture_defs stNew_def)

lemma get_reviewer_db:
  "q_GetReviewer (faults_of E0) (Reviewer g0) (store st1) = Inr \<lparr>Name = [], CurrentSha = Some ''ab34''\<rparr>"
  "q_GetReviewer (faults_of E0) (Reviewer g0) (store st0) = Inr \<lparr>Name = [], CurrentSha = Some ''ab12''\<rparr>"
  "q_GetReviewer (faults_of E0) (Reviewer g0) (store stNew) = Inr \<lparr>Name = [], CurrentSha = None\<rparr>"
  by (simp_all add: q_GetReviewer_def fixture_defs stNew_def)

lemma active_db: "requireActive E0 st0 = None" "requireActive E0 stNew = None"
  by (simp_all add: requireActive_None_iff fixture_defs stNew_def)

theorem next_targets_following_position_witness:
  "nextIdx \<lparr>Name = [], CurrentSha = None\<rparr> [commit1, commit2] = Inr 0 \<and>
   nextIdx \<lparr>Name = [], CurrentSha = Some ''ab12''\<rparr> [commit1, commit2] = Inr 1 \<and>
   nextIdx \<lparr>Name = [], CurrentSha = Some ''ab34''\<rparr> [commit1, commit2] = Inr 2 \<and>
   NextCmd_Run E0 g0 st1 =
     (None, st1\<lparr>out := [Stdout nl, Stdout (''All commits reviewed.'' @ nl), Stdout nl,
               Stdout ''  git review finish    Complete the review\<newline>'',
               Stdout ''  git review list      View all comments\<newline>'']\<rparr>)"
proof -
  note N = next_targets_following_position[where E = E0 and g = g0 and st = stNew
      and r = "\<lparr>Name = [], CurrentSha = None\<rparr>" and commits = "[commit1, commit2]", rule_format]
  have 1: "nextIdx \<lparr>Name = [], CurrentSha = None\<rparr> [commit1, commit2] = Inr 0"
    using N active_db list_commits_db get_reviewer_db by simp
  note Z = next_targets_following_position[where E = E0 and g = g0 and st = st0
      and r = "\<lparr>Name = [], CurrentSha = Some ''ab12''\<rparr>" and commits = "[commit1, commit2]",
      THEN mp, OF conjI[OF active_db(1) conjI[OF get_reviewer_db(2) list_commits_db(2)]],
      THEN conjunct2, THEN conjunct1, rule_format, of "''ab12''" commit1]
  have 2: "nextIdx \<lparr>Name = [], CurrentSha = Some ''ab12''\<rparr> [commit1, commit2] = Inr 1"
    using Z by (simp add: commit1_def commit2_def)
  note O = next_targets_following_position[where E = E0 and g = g0 and st = st1
      and r = "\<lparr>Name = [], CurrentSha = Some ''ab34''\<rparr>" and commits = "[commit1, commit2]",
      THEN mp, OF conjI[OF active_st1 conjI[OF get_reviewer_db(1) list_commits_db(1)]]]
  have 3: "nextIdx \<lparr>Name = [], CurrentSha = Some ''ab34''\<rparr> [commit1, commit2] = Inr 2"
    using O[THEN conjunct2, THEN conjunct1, rule_format, of "''ab34''" commit2]
    by (simp add: commit1_def commit2_def)
  have 4: "NextCmd_Run E0 g0 st1 =
     (None, st1\<lparr>out := [Stdout nl, Stdout (''All commits reviewed.'' @ nl), Stdout nl,
               Stdout ''  git review finish    Complete the review\<newline>'',
               Stdout ''  git review list      View all comments\<newline>'']\<rparr>)"
    using O[THEN conjunct2, THEN conjunct2, THEN conjunct1, rule_format, of 2] 3
    by (simp add: colorize_def E0_def st1_def)
  from 1 2 3 4 show ?thesis by simp
qed

subsection \<open>Claim C8: the example\<close>

lemmas start_defs =
  StartCmd_Run_def startSession_def resolveBase_def startTx_def startJump_def WithTx_def
  q_SessionExists_def q_InsertSession_def q_InsertCommit_def q_InsertReviewer_def
  CurrentBranch_def RevList_def Subject_def Oneline_def git_Run_def text_or_empty_def
  startExec_def stEmpty_def startMain_def nl_def startedBanner_def out_Printf_def out_Ok_def

lemma start_eval:
  "fst (StartCmd_Run (E0\<lparr>exec := startExec\<rparr>) g0 startMain stEmpty) = None"
  "t_commits (store (snd (StartCmd_Run (E0\<lparr>exec := startExec\<rparr>) g0 startMain stEmpty))) =
     [\<lparr>Sha = ''ab12'', Message = [], Position = 0\<rparr>, \<lparr>Sha = ''ab34'', Message = [], Position = 1\<rparr>,
      \<lparr>Sha = ''ab56'', Message = [], Position = 2\<rparr>]"
  by (simp_all add: start_defs nav_defs E0_def g0_def Let_def)

lemma start_tx_fails:
  "fst (WithTx (\<lambda>s. s = InsertCommit ''ab34'')
          (startTx (E0\<lparr>exec := startExec, faults_of := (\<lambda>s. s = InsertCommit ''ab34'')\<rparr>) g0
             ''ba5e'' ''feature'' [] [''ab12'', ''ab34'', ''ab56''])
          (store stEmpty) []) \<noteq> None"
  by (simp add: start_defs E0_def g0_def)

theorem start_inserts_contiguous_positions_witness:
  "map Position (t_commits (store (snd (StartCmd_Run (E0\<lparr>exec := startExec\<rparr>) g0 startMain stEmpty))))
     = [0, 1, 2] \<and>
   map Sha (t_commits (store (snd (StartCmd_Run (E0\<lparr>exec := startExec\<rparr>) g0 startMain stEmpty))))
     = [''ab12'', ''ab34'', ''ab56''] \<and>
   length (t_session (store (snd (StartCmd_Run (E0\<lparr>exec := startExec\<rparr>) g0 startMain stEmpty)))) = 1 \<and>
   map Name (t_reviewers (store (snd (StartCmd_Run (E0\<lparr>exec := startExec\<rparr>) g0 startMain stEmpty))))
     = [[]] \<and>
   fst (snd (WithTx (\<lambda>s. s = InsertCommit ''ab34'')
          (startTx (E0\<lparr>exec := startExec, faults_of := (\<lambda>s. s = InsertCommit ''ab34'')\<rparr>) g0
             ''ba5e'' ''feature'' [] [''ab12'', ''ab34'', ''ab56''])
          (store stEmpty) [])) = store stEmpty"
proof -
  let ?E = "E0\<lparr>exec := startExec\<rparr>"
  let ?run = "StartCmd_Run ?E g0 startMain stEmpty"
  let ?sa = "snd ?run"
  note T = start_inserts_contiguous_positions[where E = ?E and g = g0 and c = startMain
      and st = stEmpty and res = "fst ?run" and sa = ?sa, THEN conjunct1, rule_format]
  have se: "q_SessionExists (faults_of ?E) (store stEmpty) = Inr 0"
    by (simp add: q_SessionExists_def E0_def stEmpty_def)
  have pr: "?run = (fst ?run, ?sa)" by simp
  have neq: "store ?sa \<noteq> store stEmpty"
  proof
    assume "store ?sa = store stEmpty"
    then have "t_commits (store ?sa) = t_commits (store stEmpty)" by simp
    then show False using start_eval(2) by (simp add: stEmpty_def)
  qed
  from T[OF conjI[OF se pr]] obtain shas rows base branch cur where
    r: "t_session (store ?sa) = t_session (store stEmpty) @
           [\<lparr>BaseRef = base, Branch = branch, SessionCreatedAt = now_utc ?E\<rparr>]"
      "t_commits (store ?sa) = t_commits (store stEmpty) @ rows"
      "map Sha rows = shas" "map Position rows = map int [0..<length shas]"
      "t_reviewers (store ?sa) = t_reviewers (store stEmpty) @
           [\<lparr>Name = (if start_Name startMain = [] then Reviewer g0 else start_Name startMain),
             CurrentSha = cur\<rparr>]"
  proof (elim disjE exE conjE)
    assume "store ?sa = store stEmpty"
    with neq show thesis by contradiction
  next
    fix base branch shas rows cur w w'
    assume "t_session (store ?sa) = t_session (store stEmpty) @
           [\<lparr>BaseRef = base, Branch = branch, SessionCreatedAt = now_utc ?E\<rparr>]"
      "t_commits (store ?sa) = t_commits (store stEmpty) @ rows"
      "map Sha rows = shas" "map Position rows = map int [0..<length shas]"
      "t_reviewers (store ?sa) = t_reviewers (store stEmpty) @
           [\<lparr>Name = (if start_Name startMain = [] then Reviewer g0 else start_Name startMain),
             CurrentSha = cur\<rparr>]"
    then show thesis by (rule that)
  qed
  have rows: "rows = t_commits (store ?sa)" using r(2) by (simp add: stEmpty_def)
  have sh: "map Sha (t_commits (store ?sa)) = [''ab12'', ''ab34'', ''ab56'']"
    using start_eval(2) by simp
  have len: "length shas = 3"
  proof -
    have "length shas = length (map Sha rows)" using r(3) by simp
    also have "\<dots> = length (map Sha (t_commits (store ?sa)))" using rows by simp
    also have "\<dots> = 3" unfolding sh by simp
    finally show ?thesis .
  qed
  have "map Position rows = map int [0..<3]" using r(4) len by simp
  then have po: "map Position (t_commits (store ?sa)) = [0, 1, 2]"
    using rows by (simp add: upt_conv_Cons)
  have s1: "length (t_session (store ?sa)) = 1" using r(1) by (simp add: stEmpty_def)
  have rv: "map Name (t_reviewers (store ?sa)) = [[]]"
    using r(5) by (simp add: stEmpty_def startMain_def g0_def)
  let ?F = "\<lambda>s. s = InsertCommit ''ab34''"
  let ?Ef = "E0\<lparr>exec := startExec, faults_of := ?F\<rparr>"
  let ?tx = "WithTx ?F (startTx ?Ef g0 ''ba5e'' ''feature'' [] [''ab12'', ''ab34'', ''ab56''])
          (store stEmpty) []"
  note U = start_inserts_contiguous_positions[where E = ?Ef and g = g0 and tbase = "''ba5e''"
      and tbranch = "''feature''" and tname = "[]" and tshas = "[''ab12'', ''ab34'', ''ab56'']"
      and d = "store stEmpty" and x = "[]" and rt = "fst ?tx" and d' = "fst (snd ?tx)"
      and x' = "snd (snd ?tx)", THEN conjunct2, rule_format]
  have fe: "faults_of ?Ef = ?F" by simp
  have "fst (snd ?tx) = store stEmpty"
    using U[THEN conjunct1] start_tx_fails by (simp add: fe)
  with po sh s1 rv show ?thesis by simp
qed

end
